theory Spec2Isabelle
  imports Main "HOL-Library.Sublist"
begin

section \<open>The LRS level-3 extraction script\<close>

text \<open>
  The script \<^verbatim>\<open>miri_lrs_extract_L3.py\<close> has one function, \<^verbatim>\<open>extract_spectrum\<close>, and a
  command-line driver.  Everything it does is a call into the pipeline library
  (\<^verbatim>\<open>Extract1dStep\<close>), into the plotting library (\<^verbatim>\<open>matplotlib.pyplot\<close>) or into
  \<^verbatim>\<open>argparse\<close>.  The two external libraries are parameters of the model: each of their
  entry points is a function on an abstract world \<open>'w\<close> that returns either an exception
  \<open>'e\<close> or a value, together with the new world.  The model of the script threads the world
  through the calls in the order of the source and records every call it makes, with its
  outcome, in a trace.
\<close>

subsection \<open>Data\<close>

text \<open>The settings of the step object that the script assigns (lines 15 to 18).\<close>

record Extract1dStep =
  save_results :: bool
  output_dir :: "string option"
  override_extract1d :: "string option"
  use_source_posn :: "bool option"

text \<open>
  The product returned by the step: \<^verbatim>\<open>sp3.spec\<close> is a list of spectra, each with a
  \<^verbatim>\<open>spec_table\<close> indexed by column name, and \<^verbatim>\<open>sp3.meta.filename\<close> is a string.  The
  columns are arrays of floating-point numbers, which the script only passes on: their
  type \<open>'c\<close> stays abstract.
\<close>

record 'c SpecModel =
  spec_table :: "string \<rightharpoonup> 'c"

record 'c MultiSpecModel =
  spec :: "'c SpecModel list"
  meta_filename :: string

text \<open>The calls the script makes into the two libraries, with their arguments.\<close>

datatype 'c call =
    New_Extract1dStep
  | Run Extract1dStep string
  | Figure "int list"
  | Plot 'c 'c
  | Title string
  | Xlabel string
  | Ylabel string
  | Savefig string

text \<open>
  What the caller of \<^verbatim>\<open>extract_spectrum\<close> can catch: an exception \<open>e\<close> raised inside a
  library call, or the \<^verbatim>\<open>IndexError\<close> of \<^verbatim>\<open>sp3.spec[0]\<close> on an empty list, or the
  \<^verbatim>\<open>KeyError\<close> of a missing column.  The driver adds the \<^verbatim>\<open>SystemExit\<close> of the argument
  parser, with its status, and the \<^verbatim>\<open>AttributeError\<close> of a namespace without the attribute.
\<close>

datatype 'e exn =
    Raised 'e
  | IndexError
  | KeyError string
  | SystemExit nat
  | AttributeError string
  | Untyped_argument

record ('w, 'e, 'c) library =
  Extract1dStep_init :: "'w \<Rightarrow> ('e + Extract1dStep) \<times> 'w"
  Extract1dStep_run :: "Extract1dStep \<Rightarrow> string \<Rightarrow> 'w \<Rightarrow> ('e + 'c MultiSpecModel) \<times> 'w"
  plt_figure :: "int list \<Rightarrow> 'w \<Rightarrow> ('e + unit) \<times> 'w"
  plt_plot :: "'c \<Rightarrow> 'c \<Rightarrow> 'w \<Rightarrow> ('e + unit) \<times> 'w"
  plt_title :: "string \<Rightarrow> 'w \<Rightarrow> ('e + unit) \<times> 'w"
  plt_xlabel :: "string \<Rightarrow> 'w \<Rightarrow> ('e + unit) \<times> 'w"
  plt_ylabel :: "string \<Rightarrow> 'w \<Rightarrow> ('e + unit) \<times> 'w"
  plt_savefig :: "string \<Rightarrow> 'w \<Rightarrow> ('e + unit) \<times> 'w"

subsection \<open>Sequencing with exceptions and a trace of calls\<close>

text \<open>
  The state is the world and the trace.  An event of the trace is a call and \<open>Some e\<close>
  when the call raised \<open>e\<close>, \<open>None\<close> when it returned.
\<close>

type_synonym ('e, 'c) event = "'c call \<times> 'e option"

type_synonym ('w, 'e, 'c) state = "'w \<times> ('e, 'c) event list"

type_synonym ('w, 'e, 'c, 'a) prog = "('w, 'e, 'c) state \<Rightarrow> ('e exn + 'a) \<times> ('w, 'e, 'c) state"

definition ret :: "'a \<Rightarrow> ('w, 'e, 'c, 'a) prog" where
  "ret a s = (Inr a, s)"

definition raise :: "'e exn \<Rightarrow> ('w, 'e, 'c, 'a) prog" where
  "raise x s = (Inl x, s)"

text \<open>Statements in sequence: an exception of the first skips the rest.\<close>

definition then_do :: "('w, 'e, 'c, 'a) prog \<Rightarrow> ('a \<Rightarrow> ('w, 'e, 'c, 'b) prog) \<Rightarrow> ('w, 'e, 'c, 'b) prog" where
  "then_do m f s = (case m s of (Inl x, s') \<Rightarrow> (Inl x, s') | (Inr a, s') \<Rightarrow> f a s')"

text \<open>A library call: run it on the world, record it.\<close>

definition invoke :: "'c call \<Rightarrow> ('w \<Rightarrow> ('e + 'a) \<times> 'w) \<Rightarrow> ('w, 'e, 'c, 'a) prog" where
  "invoke c f s =
     (case f (fst s) of
        (Inl e, w') \<Rightarrow> (Inl (Raised e), (w', snd s @ [(c, Some e)]))
      | (Inr a, w') \<Rightarrow> (Inr a, (w', snd s @ [(c, None)])))"

subsection \<open>The Python operations the script uses\<close>

text \<open>\<^verbatim>\<open>xs[0]\<close> on a list.\<close>

definition subscript0 :: "'a list \<Rightarrow> ('w, 'e, 'c, 'a) prog" where
  "subscript0 xs = (case xs of [] \<Rightarrow> raise IndexError | x # _ \<Rightarrow> ret x)"

text \<open>\<^verbatim>\<open>table[name]\<close> on a table of named columns.\<close>

definition column :: "(string \<rightharpoonup> 'v) \<Rightarrow> string \<Rightarrow> ('w, 'e, 'c, 'v) prog" where
  "column t name = (case t name of None \<Rightarrow> raise (KeyError name) | Some v \<Rightarrow> ret v)"

text \<open>
  \<^verbatim>\<open>s.replace(old, new)\<close>: every occurrence of \<open>old\<close> in \<open>s\<close>, found from the left and
  not overlapping, becomes \<open>new\<close>.  With an empty \<open>old\<close> Python puts \<open>new\<close> before every
  character and at the end.
\<close>

function replace_from :: "string \<Rightarrow> string \<Rightarrow> string \<Rightarrow> string" where
  "replace_from old new [] = []"
| "replace_from old new (c # cs) =
     (if old \<noteq> [] \<and> prefix old (c # cs)
      then new @ replace_from old new (drop (length old) (c # cs))
      else c # replace_from old new cs)"
  by pat_completeness auto
termination
  by (relation "measure (\<lambda>(old, new, s). length s)") (auto simp: Suc_diff_le)

definition replace :: "string \<Rightarrow> string \<Rightarrow> string \<Rightarrow> string" where
  "replace s old new =
     (if old = [] then new @ concat (map (\<lambda>c. c # new) s) else replace_from old new s)"

subsection \<open>extract_spectrum\<close>

definition extract_spectrum ::
  "('w, 'e, 'c) library \<Rightarrow> string \<Rightarrow> string \<Rightarrow> bool \<Rightarrow> ('w, 'e, 'c, unit) prog" where
  "extract_spectrum lib s2dfile parfile plot =
     then_do (invoke New_Extract1dStep (Extract1dStep_init lib)) (\<lambda>x1d0.
     let x1d = x1d0\<lparr>save_results := True,
                    output_dir := Some ''./'',
                    override_extract1d := Some parfile,
                    use_source_posn := Some False\<rparr>
     in
     then_do (invoke (Run x1d s2dfile) (Extract1dStep_run lib x1d s2dfile)) (\<lambda>sp3.
     if plot then
       then_do (invoke (Figure [10, 6]) (plt_figure lib [10, 6])) (\<lambda>fig.
       then_do (subscript0 (spec sp3)) (\<lambda>s0.
       then_do (column (spec_table s0) ''WAVELENGTH'') (\<lambda>wavelength.
       then_do (subscript0 (spec sp3)) (\<lambda>s0'.
       then_do (column (spec_table s0') ''FLUX'') (\<lambda>flux.
       then_do (invoke (Plot wavelength flux) (plt_plot lib wavelength flux)) (\<lambda>_.
       then_do (invoke (Title (meta_filename sp3)) (plt_title lib (meta_filename sp3))) (\<lambda>_.
       then_do (invoke (Xlabel ''micron'') (plt_xlabel lib ''micron'')) (\<lambda>_.
       then_do (invoke (Ylabel ''Jy'') (plt_ylabel lib ''Jy'')) (\<lambda>_.
       let outfile = replace (meta_filename sp3) ''_extract1dstep.fits'' ''.png'' in
       invoke (Savefig outfile) (plt_savefig lib outfile))))))))))
     else ret ()))"

subsection \<open>argparse\<close>

text \<open>
  The values a namespace of this parser can hold: \<^verbatim>\<open>None\<close>, a string or a boolean.
\<close>

datatype argval = NoneVal | Str string | Bool bool

text \<open>
  An action of the parser, with the attributes the parsing looks at.  The three kinds are
  the ones this parser has: \<^verbatim>\<open>store\<close> with one argument (the default action),
  \<^verbatim>\<open>store_true\<close>, and the \<^verbatim>\<open>help\<close> action that \<^verbatim>\<open>ArgumentParser\<close> adds by itself.
  \<open>None\<close> for \<open>dest\<close> or \<open>default_value\<close> stands for \<^verbatim>\<open>SUPPRESS\<close>.
\<close>

datatype action_kind = Store | StoreTrue | Help

record action =
  option_strings :: "string list"
  dest :: "string option"
  kind :: action_kind
  required :: bool
  default_value :: "argval option"

type_synonym parser = "action list"

text \<open>
  Lines 38 to 41: the parser is its list of actions, in the order they are added.  The
  \<open>dest\<close> of each is its option string without the dashes, as \<^verbatim>\<open>add_argument\<close>
  derives it.
\<close>

definition help_action :: action where
  "help_action = \<lparr>option_strings = [''-h'', ''--help''], dest = None, kind = Help,
                   required = False, default_value = None\<rparr>"

definition parser :: parser where
  "parser =
     [help_action,
      \<lparr>option_strings = [''--s2dfile''], dest = Some ''s2dfile'', kind = Store,
       required = True, default_value = Some NoneVal\<rparr>,
      \<lparr>option_strings = [''--parfile''], dest = Some ''parfile'', kind = Store,
       required = False, default_value = Some (Str ''miri_lrs_demo_extract1d.json'')\<rparr>,
      \<lparr>option_strings = [''--save_plot''], dest = Some ''save_plot'', kind = StoreTrue,
       required = False, default_value = Some (Bool False)\<rparr>]"

text \<open>
  \<^verbatim>\<open>parse_args\<close> either returns the namespace or leaves through \<^verbatim>\<open>SystemExit\<close>: with
  status 0 after printing the help, with status 2 after one of its error messages.
\<close>

datatype exit =
    HelpExit
  | Ambiguous string "string list"
  | ExpectedOneArgument string
  | IgnoredExplicitArgument string
  | RequiredArguments "string list"
  | Unrecognized "string list"

fun status :: "exit \<Rightarrow> nat" where
  "status HelpExit = 0"
| "status _ = 2"

text \<open>
  What follows models \<^verbatim>\<open>ArgumentParser.parse_args\<close> of CPython 3.11 for a parser that has
  only optional arguments of the three kinds above, the prefix character \<^verbatim>\<open>-\<close> and
  abbreviations allowed, function by function: \<^verbatim>\<open>_parse_optional\<close>,
  \<^verbatim>\<open>_get_option_tuples\<close>, the classification of the argument strings, \<^verbatim>\<open>consume_optional\<close>,
  \<^verbatim>\<open>take_action\<close>, the main loop of \<^verbatim>\<open>_parse_known_args\<close> and the checks that end it.
  Strings are byte strings here, so a digit is one of the ten ASCII digits.
\<close>

definition option_string_actions :: "parser \<Rightarrow> (string \<times> action) list" where
  "option_string_actions P = concat (map (\<lambda>a. map (\<lambda>s. (s, a)) (option_strings a)) P)"

definition partition_eq :: "string \<Rightarrow> string \<times> bool \<times> string" where
  "partition_eq s =
     (takeWhile (\<lambda>c. c \<noteq> CHR ''='') s,
      CHR ''='' \<in> set s,
      drop 1 (dropWhile (\<lambda>c. c \<noteq> CHR ''='') s))"

definition digit :: "char \<Rightarrow> bool" where
  "digit c = (c \<in> set ''0123456789'')"

definition negative_number_body :: "string \<Rightarrow> bool" where
  "negative_number_body s =
     (case s of
        [] \<Rightarrow> False
      | c # r \<Rightarrow> c = CHR ''-'' \<and>
          ((r \<noteq> [] \<and> list_all digit r) \<or>
           (let f = dropWhile digit r
            in f \<noteq> [] \<and> hd f = CHR ''.'' \<and> tl f \<noteq> [] \<and> list_all digit (tl f))))"

definition negative_number :: "string \<Rightarrow> bool" where
  "negative_number s =
     (negative_number_body s \<or> (s \<noteq> [] \<and> last s = CHR 0x0A \<and> negative_number_body (butlast s)))"

type_synonym option_tuple = "action option \<times> string \<times> bool \<times> string option"

definition get_option_tuples :: "parser \<Rightarrow> string \<Rightarrow> option_tuple list" where
  "get_option_tuples P option_string =
     (if option_string ! 1 = CHR ''-'' then
        (case partition_eq option_string of (option_prefix, sep, explicit_arg) \<Rightarrow>
           map (\<lambda>(s, a). (Some a, s, sep, if sep then Some explicit_arg else None))
             (filter (\<lambda>(s, a). prefix option_prefix s) (option_string_actions P)))
      else
        map (\<lambda>(s, a). if s = take 2 option_string
                       then (Some a, s, False, Some (drop 2 option_string))
                       else (Some a, s, False, None))
          (filter (\<lambda>(s, a). s = take 2 option_string \<or> prefix option_string s)
             (option_string_actions P)))"

definition parse_optional :: "parser \<Rightarrow> string \<Rightarrow> exit + option_tuple option" where
  "parse_optional P arg_string =
     (if arg_string = [] then Inr None
      else if hd arg_string \<noteq> CHR ''-'' then Inr None
      else case map_of (option_string_actions P) arg_string of
        Some a \<Rightarrow> Inr (Some (Some a, arg_string, False, None))
      | None \<Rightarrow>
         if length arg_string = 1 then Inr None
         else case partition_eq arg_string of (option_string, sep, explicit_arg) \<Rightarrow>
           (case (if sep then map_of (option_string_actions P) option_string else None) of
              Some a \<Rightarrow> Inr (Some (Some a, option_string, True, Some explicit_arg))
            | None \<Rightarrow>
               (let option_tuples = get_option_tuples P arg_string in
                if length option_tuples > 1
                then Inl (Ambiguous arg_string (map (\<lambda>t. fst (snd t)) option_tuples))
                else if length option_tuples = 1 then Inr (Some (hd option_tuples))
                else if negative_number arg_string \<and>
                        \<not> list_ex negative_number (map fst (option_string_actions P))
                then Inr None
                else if CHR '' '' \<in> set arg_string then Inr None
                else Inr (Some (None, arg_string, False, None)))))"

datatype tok = Arg string | Opt option_tuple string | DashDash

fun classify :: "parser \<Rightarrow> string list \<Rightarrow> exit + tok list" where
  "classify P [] = Inr []"
| "classify P (s # ss) =
     (if s = ''--'' then Inr (DashDash # map Arg ss)
      else case parse_optional P s of
        Inl e \<Rightarrow> Inl e
      | Inr t \<Rightarrow>
         (case classify P ss of
            Inl e \<Rightarrow> Inl e
          | Inr ts \<Rightarrow> Inr ((case t of None \<Rightarrow> Arg s | Some ot \<Rightarrow> Opt ot s) # ts)))"


record pstate =
  namespace :: "string \<rightharpoonup> argval"
  seen_actions :: "action list"
  extras :: "string list"

fun join :: "string \<Rightarrow> string list \<Rightarrow> string" where
  "join sep [] = []"
| "join sep [x] = x"
| "join sep (x # y # ys) = x @ sep @ join sep (y # ys)"

definition action_name :: "action \<Rightarrow> string" where
  "action_name a = join ''/'' (option_strings a)"

fun tok_string :: "tok \<Rightarrow> string" where
  "tok_string (Arg s) = s"
| "tok_string (Opt t s) = s"
| "tok_string DashDash = ''--''"

definition match_argument :: "action \<Rightarrow> tok list \<Rightarrow> exit + nat" where
  "match_argument a following =
     (case kind a of
        Store \<Rightarrow> (case following of
                    Arg v # _ \<Rightarrow> Inr 1
                  | _ \<Rightarrow> Inl (ExpectedOneArgument (action_name a)))
      | _ \<Rightarrow> Inr 0)"

type_synonym action_tuple = "action \<times> string list"

function consume_optional ::
  "parser \<Rightarrow> action \<Rightarrow> string \<Rightarrow> bool \<Rightarrow> string option \<Rightarrow> tok list \<Rightarrow> action_tuple list
     \<Rightarrow> exit + (action_tuple list \<times> string list \<times> nat)" where
  "consume_optional P a option_string sep None following acc =
     (case match_argument a following of
        Inl e \<Rightarrow> Inl e
      | Inr n \<Rightarrow> Inr (acc @ [(a, map tok_string (take n following))], [], n))"
| "consume_optional P a option_string sep (Some explicit_arg) following acc =
     (if kind a \<noteq> Store \<and> option_string ! 1 \<noteq> CHR ''-'' \<and> explicit_arg \<noteq> [] then
        (if sep \<or> hd explicit_arg = CHR ''-'' then Inl (IgnoredExplicitArgument explicit_arg)
         else
           (case map_of (option_string_actions P) [hd option_string, hd explicit_arg] of
              Some a' \<Rightarrow>
                (if tl explicit_arg = []
                 then consume_optional P a' [hd option_string, hd explicit_arg] False None
                        following (acc @ [(a, [])])
                 else if hd (tl explicit_arg) = CHR ''=''
                 then consume_optional P a' [hd option_string, hd explicit_arg] True
                        (Some (tl (tl explicit_arg))) following (acc @ [(a, [])])
                 else consume_optional P a' [hd option_string, hd explicit_arg] False
                        (Some (tl explicit_arg)) following (acc @ [(a, [])]))
            | None \<Rightarrow> Inr (acc @ [(a, [])], [hd option_string # explicit_arg], 0)))
      else if kind a = Store then Inr (acc @ [(a, [explicit_arg])], [], 0)
      else Inl (IgnoredExplicitArgument explicit_arg))"
  by pat_completeness auto
termination
  by (relation "measure (\<lambda>(P, a, os, sep, e, f, acc). case e of None \<Rightarrow> 0 | Some x \<Rightarrow> Suc (length x))")
     (auto simp: less_Suc_eq_le neq_Nil_conv)

text \<open>
  A \<^verbatim>\<open>store\<close> action always gets the one argument string that \<open>match_argument\<close> counted;
  the model gives the same error for any other number.
\<close>

definition take_action :: "action \<Rightarrow> string list \<Rightarrow> pstate \<Rightarrow> exit + pstate" where
  "take_action a argument_strings st =
     (let st' = st\<lparr>seen_actions := a # seen_actions st\<rparr> in
      case kind a of
        Store \<Rightarrow>
          (case (argument_strings, dest a) of
             ([v], Some d) \<Rightarrow> Inr (st'\<lparr>namespace := (namespace st')(d \<mapsto> Str v)\<rparr>)
           | _ \<Rightarrow> Inl (ExpectedOneArgument (action_name a)))
      | StoreTrue \<Rightarrow>
          (case dest a of
             Some d \<Rightarrow> Inr (st'\<lparr>namespace := (namespace st')(d \<mapsto> Bool True)\<rparr>)
           | None \<Rightarrow> Inr st')
      | Help \<Rightarrow> Inl HelpExit)"

fun take_actions :: "action_tuple list \<Rightarrow> pstate \<Rightarrow> exit + pstate" where
  "take_actions [] st = Inr st"
| "take_actions ((a, args) # rest) st =
     (case take_action a args st of Inl e \<Rightarrow> Inl e | Inr st' \<Rightarrow> take_actions rest st')"

function consume :: "parser \<Rightarrow> tok list \<Rightarrow> pstate \<Rightarrow> exit + pstate" where
  "consume P [] st = Inr st"
| "consume P (Arg s # ts) st = consume P ts (st\<lparr>extras := extras st @ [s]\<rparr>)"
| "consume P (DashDash # ts) st = consume P ts (st\<lparr>extras := extras st @ [''--'']\<rparr>)"
| "consume P (Opt (None, option_string, sep, explicit_arg) s # ts) st =
     consume P ts (st\<lparr>extras := extras st @ [s]\<rparr>)"
| "consume P (Opt (Some a, option_string, sep, explicit_arg) s # ts) st =
     (case consume_optional P a option_string sep explicit_arg ts [] of
        Inl e \<Rightarrow> Inl e
      | Inr (action_tuples, unknown, n) \<Rightarrow>
         (case take_actions action_tuples (st\<lparr>extras := extras st @ unknown\<rparr>) of
            Inl e \<Rightarrow> Inl e
          | Inr st' \<Rightarrow> consume P (drop n ts) st'))"
  by pat_completeness auto
termination
  by (relation "measure (\<lambda>(P, ts, st). length ts)") auto

definition defaults :: "parser \<Rightarrow> string \<rightharpoonup> argval" where
  "defaults P =
     fold (\<lambda>a ns. case (dest a, default_value a) of
                    (Some d, Some v) \<Rightarrow> (if d \<in> dom ns then ns else ns(d \<mapsto> v))
                  | _ \<Rightarrow> ns) P Map.empty"

definition parse_known_args :: "parser \<Rightarrow> string list \<Rightarrow> exit + ((string \<rightharpoonup> argval) \<times> string list)" where
  "parse_known_args P args =
     (case classify P args of
        Inl e \<Rightarrow> Inl e
      | Inr toks \<Rightarrow>
         (case consume P toks \<lparr>namespace = defaults P, seen_actions = [], extras = []\<rparr> of
            Inl e \<Rightarrow> Inl e
          | Inr st \<Rightarrow>
             (let required_actions =
                    map action_name (filter (\<lambda>a. a \<notin> set (seen_actions st) \<and> required a) P)
              in if required_actions \<noteq> [] then Inl (RequiredArguments required_actions)
                 else Inr (namespace st, extras st))))"

definition parse_args :: "parser \<Rightarrow> string list \<Rightarrow> exit + (string \<rightharpoonup> argval)" where
  "parse_args P args =
     (case parse_known_args P args of
        Inl e \<Rightarrow> Inl e
      | Inr (ns, argv) \<Rightarrow> if argv \<noteq> [] then Inl (Unrecognized argv) else Inr ns)"

subsection \<open>The command-line driver\<close>

text \<open>Attribute access on the namespace.\<close>

definition getattr :: "(string \<rightharpoonup> argval) \<Rightarrow> string \<Rightarrow> ('w, 'e, 'c, argval) prog" where
  "getattr ns name = (case ns name of None \<Rightarrow> raise (AttributeError name) | Some v \<Rightarrow> ret v)"

text \<open>
  Lines 42 and 43, with \<open>argv\<close> for \<^verbatim>\<open>sys.argv[1:]\<close>.  The three attributes are read in the
  order of the keyword arguments and passed on.  \<open>extract_spectrum\<close> is typed in the model, so
  the values are read at their types; it is shown below that a namespace this
  parser returns always has them at these types, so that the last branch is never taken.
\<close>

definition main :: "('w, 'e, 'c) library \<Rightarrow> string list \<Rightarrow> ('w, 'e, 'c, unit) prog" where
  "main lib argv =
     (case parse_args parser argv of
        Inl e \<Rightarrow> raise (SystemExit (status e))
      | Inr args \<Rightarrow>
         then_do (getattr args ''s2dfile'') (\<lambda>s2dfile.
         then_do (getattr args ''parfile'') (\<lambda>parfile.
         then_do (getattr args ''save_plot'') (\<lambda>save_plot.
         (case (s2dfile, parfile, save_plot) of
            (Str a, Str b, Bool c) \<Rightarrow> extract_spectrum lib a b c
          | _ \<Rightarrow> raise Untyped_argument)))))"

subsection \<open>Traces\<close>

text \<open>The calls of a trace, and the trace that one run from a fresh trace leaves.\<close>

definition calls :: "('e, 'c) event list \<Rightarrow> 'c call list" where
  "calls t = map fst t"

definition trace_of :: "('w, 'e, 'c, 'a) prog \<Rightarrow> 'w \<Rightarrow> ('e, 'c) event list" where
  "trace_of m w = snd (snd (m (w, [])))"

definition result_of :: "('w, 'e, 'c, 'a) prog \<Rightarrow> 'w \<Rightarrow> 'e exn + 'a" where
  "result_of m w = fst (m (w, []))"

definition world_of :: "('w, 'e, 'c, 'a) prog \<Rightarrow> 'w \<Rightarrow> 'w" where
  "world_of m w = fst (snd (m (w, [])))"

subsection \<open>What the libraries receive\<close>

text \<open>
  The trace is the model's own record of the calls.  To state what the libraries are really
  asked to do, the script is run on a library that keeps a log itself:
  \<open>recording lib\<close> does what \<open>lib\<close> does, and each of its entry points appends the call
  it received, with the arguments it received and with its outcome, to a log that is part
  of the world.  \<open>received m w\<close> is the log after the program \<open>m\<close>, started in the world
  \<open>w\<close> with an empty log.
\<close>

definition logged ::
  "'c call \<Rightarrow> ('w \<Rightarrow> ('e + 'a) \<times> 'w) \<Rightarrow> 'w \<times> ('e, 'c) event list
     \<Rightarrow> ('e + 'a) \<times> 'w \<times> ('e, 'c) event list" where
  "logged c f wl =
     (case f (fst wl) of
        (Inl e, w') \<Rightarrow> (Inl e, w', snd wl @ [(c, Some e)])
      | (Inr a, w') \<Rightarrow> (Inr a, w', snd wl @ [(c, None)]))"

definition recording ::
  "('w, 'e, 'c) library \<Rightarrow> ('w \<times> ('e, 'c) event list, 'e, 'c) library" where
  "recording lib =
     \<lparr>Extract1dStep_init = logged New_Extract1dStep (Extract1dStep_init lib),
      Extract1dStep_run = (\<lambda>x1d inp. logged (Run x1d inp) (Extract1dStep_run lib x1d inp)),
      plt_figure = (\<lambda>figsize. logged (Figure figsize) (plt_figure lib figsize)),
      plt_plot = (\<lambda>x y. logged (Plot x y) (plt_plot lib x y)),
      plt_title = (\<lambda>label. logged (Title label) (plt_title lib label)),
      plt_xlabel = (\<lambda>label. logged (Xlabel label) (plt_xlabel lib label)),
      plt_ylabel = (\<lambda>label. logged (Ylabel label) (plt_ylabel lib label)),
      plt_savefig = (\<lambda>fname. logged (Savefig fname) (plt_savefig lib fname))\<rparr>"

definition received ::
  "('w \<times> ('e, 'c) event list, 'e, 'c, 'a) prog \<Rightarrow> 'w \<Rightarrow> ('e, 'c) event list" where
  "received m w = snd (world_of m (w, []))"


subsection \<open>Names for the proofs\<close>

text \<open>The four assignments of lines 15 to 18, applied to the freshly made step object.\<close>

definition x1d_settings :: "string \<Rightarrow> Extract1dStep \<Rightarrow> Extract1dStep" where
  "x1d_settings parfile x1d0 =
     x1d0\<lparr>save_results := True, output_dir := Some ''./'',
          override_extract1d := Some parfile, use_source_posn := Some False\<rparr>"

text \<open>
  Two segments of the body of \<open>extract_spectrum\<close>: lines 26 to 30, and the whole branch
  of \<^verbatim>\<open>if plot:\<close> (lines 24 to 30).  Lemma \<open>extract_spectrum_segments\<close> below shows
  that the function is their composition.
\<close>

definition after_plot :: "('w, 'e, 'c) library \<Rightarrow> 'c MultiSpecModel \<Rightarrow> ('w, 'e, 'c, unit) prog" where
  "after_plot lib sp3 =
     then_do (invoke (Title (meta_filename sp3)) (plt_title lib (meta_filename sp3))) (\<lambda>_.
     then_do (invoke (Xlabel ''micron'') (plt_xlabel lib ''micron'')) (\<lambda>_.
     then_do (invoke (Ylabel ''Jy'') (plt_ylabel lib ''Jy'')) (\<lambda>_.
     invoke (Savefig (replace (meta_filename sp3) ''_extract1dstep.fits'' ''.png''))
       (plt_savefig lib (replace (meta_filename sp3) ''_extract1dstep.fits'' ''.png'')))))"

definition plot_block :: "('w, 'e, 'c) library \<Rightarrow> 'c MultiSpecModel \<Rightarrow> ('w, 'e, 'c, unit) prog" where
  "plot_block lib sp3 =
     then_do (invoke (Figure [10, 6]) (plt_figure lib [10, 6])) (\<lambda>fig.
     then_do (subscript0 (spec sp3)) (\<lambda>s0.
     then_do (column (spec_table s0) ''WAVELENGTH'') (\<lambda>wavelength.
     then_do (subscript0 (spec sp3)) (\<lambda>s0'.
     then_do (column (spec_table s0') ''FLUX'') (\<lambda>flux.
     then_do (invoke (Plot wavelength flux) (plt_plot lib wavelength flux)) (\<lambda>_.
     after_plot lib sp3))))))"

text \<open>Kinds of calls.\<close>

fun is_Run :: "'c call \<Rightarrow> bool" where
  "is_Run (Run _ _) = True"
| "is_Run _ = False"

fun is_Plot :: "'c call \<Rightarrow> bool" where
  "is_Plot (Plot _ _) = True"
| "is_Plot _ = False"

fun is_plt :: "'c call \<Rightarrow> bool" where
  "is_plt New_Extract1dStep = False"
| "is_plt (Run _ _) = False"
| "is_plt _ = True"

text \<open>
  The shape of what a program adds to the trace.  \<open>steps ok m\<close>: from every state, \<open>m\<close>
  appends calls that all satisfy \<open>ok\<close>; every call but the last one returned; and the
  outcome of \<open>m\<close> is the library exception \<open>e\<close> exactly when the last call raised \<open>e\<close>.
\<close>

definition returned :: "('e, 'c) event \<Rightarrow> bool" where
  "returned ev = (snd ev = None)"

definition steps :: "('c call \<Rightarrow> bool) \<Rightarrow> ('w, 'e, 'c, 'a) prog \<Rightarrow> bool" where
  "steps ok m = (\<forall>s. \<exists>new. snd (snd (m s)) = snd s @ new \<and> list_all ok (calls new) \<and>
       list_all returned (butlast new) \<and>
       (case fst (m s) of
          Inl (Raised e) \<Rightarrow> new \<noteq> [] \<and> snd (last new) = Some e
        | _ \<Rightarrow> list_all returned new))"

text \<open>\<open>ends c m\<close>: when \<open>m\<close> returns, the last call of the trace is \<open>c\<close>, and it returned.\<close>

definition ends :: "'c call \<Rightarrow> ('w, 'e, 'c, 'a) prog \<Rightarrow> bool" where
  "ends c m = (\<forall>s a s'. m s = (Inr a, s') \<longrightarrow> snd s' \<noteq> [] \<and> last (snd s') = (c, None))"

text \<open>
  \<open>mirrors m' m\<close>: the program \<open>m'\<close>, on a recording library whose log is the trace so
  far, does what \<open>m\<close> does on the library recorded, and the log it leaves is again the trace.
\<close>

definition mirrors ::
  "('w \<times> ('e, 'c) event list, 'e, 'c, 'a) prog \<Rightarrow> ('w, 'e, 'c, 'a) prog \<Rightarrow> bool" where
  "mirrors m' m =
     (\<forall>w t. m' ((w, t), t) = (case m (w, t) of (r, (w', t')) \<Rightarrow> (r, ((w', t'), t'))))"

text \<open>\<open>yields v m\<close>: the outcome of \<open>m\<close> is \<open>v\<close>, or an exception of a library call.\<close>

definition yields :: "('e exn + 'a) \<Rightarrow> ('w, 'e, 'c, 'a) prog \<Rightarrow> bool" where
  "yields v m = (\<forall>s. fst (m s) = v \<or> (\<exists>e. fst (m s) = Inl (Raised e)))"

text \<open>
  The outcome of the two subscripts of line 25 on a product: the \<^verbatim>\<open>IndexError\<close> of an empty
  list of spectra, the \<^verbatim>\<open>KeyError\<close> of the first missing column, or nothing.
\<close>

definition subscripts :: "'c MultiSpecModel \<Rightarrow> 'e exn + unit" where
  "subscripts sp3 =
     (case spec sp3 of
        [] \<Rightarrow> Inl IndexError
      | s0 # _ \<Rightarrow>
         (case spec_table s0 ''WAVELENGTH'' of
            None \<Rightarrow> Inl (KeyError ''WAVELENGTH'')
          | Some _ \<Rightarrow>
             (case spec_table s0 ''FLUX'' of
                None \<Rightarrow> Inl (KeyError ''FLUX'')
              | Some _ \<Rightarrow> Inr ())))"

text \<open>
  What \<^verbatim>\<open>s.replace(old, new)\<close> does, said without the function: \<open>pieces old ps\<close> holds
  when \<open>ps\<close> are the pieces that \<open>old\<close> cuts a string into, from the left.  In every piece
  but the last, followed by \<open>old\<close>, the first occurrence of \<open>old\<close> is the one that follows
  it; the last piece has none.
\<close>

definition pieces :: "string \<Rightarrow> string list \<Rightarrow> bool" where
  "pieces old ps =
     (ps \<noteq> [] \<and> list_all (\<lambda>p. \<not> sublist old (p @ butlast old)) (butlast ps) \<and>
      \<not> sublist old (last ps))"

text \<open>
  The three actions that lines 39 to 41 add to the parser, and what holds of the namespace
  all through the parsing: it has the three attributes, \<^verbatim>\<open>parfile\<close> is a string,
  \<^verbatim>\<open>save_plot\<close> a boolean, and \<^verbatim>\<open>s2dfile\<close> is a string once its action has been seen.
\<close>

definition s2dfile_action :: action where
  "s2dfile_action = \<lparr>option_strings = [''--s2dfile''], dest = Some ''s2dfile'', kind = Store,
       required = True, default_value = Some NoneVal\<rparr>"

definition parfile_action :: action where
  "parfile_action = \<lparr>option_strings = [''--parfile''], dest = Some ''parfile'', kind = Store,
       required = False, default_value = Some (Str ''miri_lrs_demo_extract1d.json'')\<rparr>"

definition save_plot_action :: action where
  "save_plot_action = \<lparr>option_strings = [''--save_plot''], dest = Some ''save_plot'',
       kind = StoreTrue, required = False, default_value = Some (Bool False)\<rparr>"

definition ns_inv :: "pstate \<Rightarrow> bool" where
  "ns_inv st =
     (dom (namespace st) = {''s2dfile'', ''parfile'', ''save_plot''} \<and>
      (\<exists>b. namespace st ''parfile'' = Some (Str b)) \<and>
      (\<exists>c. namespace st ''save_plot'' = Some (Bool c)) \<and>
      ((\<exists>a. namespace st ''s2dfile'' = Some (Str a)) \<or>
       s2dfile_action \<notin> set (seen_actions st)))"

subsection \<open>A stand-in library\<close>

text \<open>
  A small library to run the script on: the world is the list of files written so far, the
  step returns a product with one spectrum of two wavelengths and writes it under its
  output directory when asked to save, and \<^verbatim>\<open>savefig\<close> writes the file it is given.
\<close>

definition demo_product :: "string \<Rightarrow> nat list MultiSpecModel" where
  "demo_product name =
     \<lparr>spec = [\<lparr>spec_table = [''WAVELENGTH'' \<mapsto> [5, 6], ''FLUX'' \<mapsto> [1, 2]]\<rparr>],
      meta_filename = name\<rparr>"

definition demo_lib :: "string \<Rightarrow> (string list, string, nat list) library" where
  "demo_lib name =
     \<lparr>Extract1dStep_init = (\<lambda>w. (Inr \<lparr>save_results = False, output_dir = None,
                                       override_extract1d = None, use_source_posn = None\<rparr>, w)),
      Extract1dStep_run = (\<lambda>x inp w.
         (Inr (demo_product name),
          if save_results x
          then (case output_dir x of None \<Rightarrow> name | Some d \<Rightarrow> d @ name) # w else w)),
      plt_figure = (\<lambda>sz w. (Inr (), w)),
      plt_plot = (\<lambda>x y w. (Inr (), w)),
      plt_title = (\<lambda>t w. (Inr (), w)),
      plt_xlabel = (\<lambda>l w. (Inr (), w)),
      plt_ylabel = (\<lambda>l w. (Inr (), w)),
      plt_savefig = (\<lambda>f w. (Inr (), f # w))\<rparr>"

text \<open>The same library with a plotting call that raises, and the settings its step starts from.\<close>

definition broken_title_lib :: "string \<Rightarrow> (string list, string, nat list) library" where
  "broken_title_lib name = (demo_lib name)\<lparr>plt_title := (\<lambda>l w. (Inl ''no display'', w))\<rparr>"

definition demo_defaults :: Extract1dStep where
  "demo_defaults = \<lparr>save_results = False, output_dir = None,
                     override_extract1d = None, use_source_posn = None\<rparr>"

text \<open>A library whose step cannot even be made.\<close>

definition no_step_lib :: "(string list, string, nat list) library" where
  "no_step_lib =
     (demo_lib [])\<lparr>Extract1dStep_init := (\<lambda>w. (Inl ''no reference files'', w))\<rparr>"

text \<open>
  A library that shows what is in the files.  The world maps the files of the current
  directory to their content; \<open>in_cwd\<close> is the file that a relative path names there, so
  \<^verbatim>\<open>./a.fits\<close> and \<^verbatim>\<open>a.fits\<close> are one file.  As in the library above, the step writes its
  product under its output directory when asked to save and \<^verbatim>\<open>savefig\<close> writes the image
  to the path it is given.
\<close>

datatype content = Spectrum_product | Plot_image

fun in_cwd :: "string \<Rightarrow> string" where
  "in_cwd (c # d # rest) = (if c = CHR ''.'' \<and> d = CHR ''/'' then in_cwd rest else c # d # rest)"
| "in_cwd path = path"

definition disk_lib :: "string \<Rightarrow> (string \<rightharpoonup> content, string, nat list) library" where
  "disk_lib name =
     \<lparr>Extract1dStep_init = (\<lambda>w. (Inr demo_defaults, w)),
      Extract1dStep_run = (\<lambda>x inp w.
         (Inr (demo_product name),
          if save_results x
          then w(in_cwd ((case output_dir x of None \<Rightarrow> [] | Some d \<Rightarrow> d) @ name) \<mapsto> Spectrum_product)
          else w)),
      plt_figure = (\<lambda>sz w. (Inr (), w)),
      plt_plot = (\<lambda>x y w. (Inr (), w)),
      plt_title = (\<lambda>t w. (Inr (), w)),
      plt_xlabel = (\<lambda>l w. (Inr (), w)),
      plt_ylabel = (\<lambda>l w. (Inr (), w)),
      plt_savefig = (\<lambda>f w. (Inr (), w(in_cwd f \<mapsto> Plot_image)))\<rparr>"

section \<open>Properties of extract_spectrum\<close>

subsection \<open>Composition rules\<close>

lemma extract_spectrum_segments:
  "extract_spectrum lib s2dfile parfile plot =
     then_do (invoke New_Extract1dStep (Extract1dStep_init lib)) (\<lambda>x1d0.
     then_do (invoke (Run (x1d_settings parfile x1d0) s2dfile)
                (Extract1dStep_run lib (x1d_settings parfile x1d0) s2dfile)) (\<lambda>sp3.
     if plot then plot_block lib sp3 else ret ()))"
  unfolding extract_spectrum_def plot_block_def after_plot_def x1d_settings_def Let_def
  by (rule refl)

lemma then_do_invoke_Inr:
  "f w = (Inr a, w') \<Longrightarrow> then_do (invoke c f) g (w, t) = g a (w', t @ [(c, None)])"
  by (simp add: then_do_def invoke_def)

lemma then_do_invoke_Inl:
  "f w = (Inl e, w') \<Longrightarrow>
   then_do (invoke c f) g (w, t) = (Inl (Raised e), (w', t @ [(c, Some e)]))"
  by (simp add: then_do_def invoke_def)

lemma then_do_subscript0_Cons: "then_do (subscript0 (x # xs)) f = f x"
  by (auto simp: then_do_def subscript0_def ret_def)

lemma then_do_column_Some: "t name = Some v \<Longrightarrow> then_do (column t name) f = f v"
  by (auto simp: then_do_def column_def ret_def)

lemma steps_ret: "steps ok (ret a)"
  by (simp add: steps_def ret_def calls_def)

lemma steps_invoke:
  fixes f :: "'w \<Rightarrow> ('e + 'a) \<times> 'w" and c :: "'c call"
  assumes ok: "ok c"
  shows "steps ok (invoke c f)"
  unfolding steps_def
proof
  fix s :: "('w, 'e, 'c) state"
  obtain r w' where fw: "f (fst s) = (r, w')" by (cases "f (fst s)")
  show "\<exists>new. snd (snd (invoke c f s)) = snd s @ new \<and> list_all ok (calls new) \<and>
       list_all returned (butlast new) \<and>
       (case fst (invoke c f s) of
          Inl (Raised e) \<Rightarrow> new \<noteq> [] \<and> snd (last new) = Some e
        | _ \<Rightarrow> list_all returned new)"
  proof (cases r)
    case (Inl e)
    with fw ok show ?thesis
      by (intro exI[of _ "[(c, Some e)]"]) (simp add: invoke_def calls_def)
  next
    case (Inr a)
    with fw ok show ?thesis
      by (intro exI[of _ "[(c, None)]"]) (simp add: invoke_def calls_def returned_def)
  qed
qed

lemma steps_then_do:
  assumes m: "steps ok m" and f: "\<And>a. steps ok (f a)"
  shows "steps ok (then_do m f)"
  unfolding steps_def
proof
  fix s
  obtain r s1 where ms: "m s = (r, s1)" by (cases "m s")
  from m obtain new1 where n1: "snd s1 = snd s @ new1" "list_all ok (calls new1)"
      "list_all returned (butlast new1)"
      "(case r of Inl (Raised e) \<Rightarrow> new1 \<noteq> [] \<and> snd (last new1) = Some e
        | _ \<Rightarrow> list_all returned new1)"
    unfolding steps_def using ms by (metis fst_conv snd_conv)
  let ?G = "\<lambda>new. snd (snd (then_do m f s)) = snd s @ new \<and> list_all ok (calls new) \<and>
       list_all returned (butlast new) \<and>
       (case fst (then_do m f s) of
          Inl (Raised e) \<Rightarrow> new \<noteq> [] \<and> snd (last new) = Some e
        | _ \<Rightarrow> list_all returned new)"
  show "\<exists>new. ?G new"
  proof (cases r)
    case (Inl x)
    then have "then_do m f s = (Inl x, s1)" by (simp add: then_do_def ms)
    with n1 Inl have "?G new1" by simp
    then show ?thesis ..
  next
    case (Inr a)
    then have td: "then_do m f s = f a s1" by (simp add: then_do_def ms)
    from Inr n1 have r1: "list_all returned new1" by simp
    from f[of a] obtain new2 where n2: "snd (snd (f a s1)) = snd s1 @ new2"
      "list_all ok (calls new2)" "list_all returned (butlast new2)"
      "(case fst (f a s1) of Inl (Raised e) \<Rightarrow> new2 \<noteq> [] \<and> snd (last new2) = Some e
        | _ \<Rightarrow> list_all returned new2)"
      unfolding steps_def by blast
    have bl: "list_all returned (butlast (new1 @ new2))"
      using r1 n1(3) n2(3) by (simp add: butlast_append)
    have "?G (new1 @ new2)"
      using td n1(1,2) n2(1,2) bl n2(4) r1
      by (auto simp: calls_def split: sum.splits exn.splits)
    then show ?thesis ..
  qed
qed

lemma steps_then_subscript0:
  assumes "\<And>x rest. xs = x # rest \<Longrightarrow> steps ok (f x)"
  shows "steps ok (then_do (subscript0 xs) f)"
proof (cases xs)
  case Nil
  then show ?thesis
    by (simp add: steps_def then_do_def subscript0_def raise_def calls_def)
next
  case (Cons x rest)
  with assms show ?thesis by (simp add: then_do_subscript0_Cons)
qed

lemma steps_then_column:
  assumes "\<And>v. t name = Some v \<Longrightarrow> steps ok (f v)"
  shows "steps ok (then_do (column t name) f)"
proof (cases "t name")
  case None
  then show ?thesis
    by (simp add: steps_def then_do_def column_def raise_def calls_def)
next
  case (Some v)
  with assms show ?thesis by (simp add: then_do_column_Some)
qed

lemma steps_at:
  assumes "steps ok m"
  obtains new where "snd (snd (m s)) = snd s @ new" and "list_all ok (calls new)"
    and "list_all returned (butlast new)"
    and "case fst (m s) of Inl (Raised e) \<Rightarrow> new \<noteq> [] \<and> snd (last new) = Some e
         | _ \<Rightarrow> list_all returned new"
  using assms unfolding steps_def by blast

lemma steps_trace_of: "steps ok m \<Longrightarrow> list_all ok (calls (trace_of m w))"
  by (erule steps_at[of ok m "(w, [])"]) (simp add: trace_of_def)

lemma steps_after_plot:
  assumes "ok (Title (meta_filename sp3))" and "ok (Xlabel ''micron'')" and "ok (Ylabel ''Jy'')"
    and "ok (Savefig (replace (meta_filename sp3) ''_extract1dstep.fits'' ''.png''))"
  shows "steps ok (after_plot lib sp3)"
  unfolding after_plot_def
  by (rule steps_then_do steps_invoke assms)+

lemma steps_plot_block:
  assumes "ok (Figure [10, 6])"
    and "\<And>s0 rest x y. spec sp3 = s0 # rest \<Longrightarrow> spec_table s0 ''WAVELENGTH'' = Some x \<Longrightarrow>
           spec_table s0 ''FLUX'' = Some y \<Longrightarrow> ok (Plot x y)"
    and "ok (Title (meta_filename sp3))" and "ok (Xlabel ''micron'')" and "ok (Ylabel ''Jy'')"
    and "ok (Savefig (replace (meta_filename sp3) ''_extract1dstep.fits'' ''.png''))"
  shows "steps ok (plot_block lib sp3)"
  unfolding plot_block_def
proof ((rule steps_then_subscript0 steps_then_column steps_invoke assms(1) | rule steps_then_do)+)
  fix s0 rest x s0' rest' y
  assume a: "spec sp3 = s0 # rest" "spec_table s0 ''WAVELENGTH'' = Some x"
    "spec sp3 = s0' # rest'" "spec_table s0' ''FLUX'' = Some y"
  then have "s0' = s0" by simp
  with a show "ok (Plot x y)" using assms(2) by blast
next
  show "steps ok (after_plot lib sp3)"
    by (rule steps_after_plot) (rule assms)+
qed

lemma steps_extract_spectrum:
  fixes lib :: "('w, 'e, 'c) library"
  assumes "ok New_Extract1dStep"
    and "\<And>x1d0. ok (Run (x1d_settings parfile x1d0) s2dfile)"
    and "\<And>c. plot \<Longrightarrow> is_plt c \<Longrightarrow> ok c"
  shows "steps ok (extract_spectrum lib s2dfile parfile plot)"
  unfolding extract_spectrum_segments
proof ((rule steps_then_do steps_invoke assms(1,2))+)
  fix sp3 :: "'c MultiSpecModel"
  show "steps ok (if plot then plot_block lib sp3 else ret ())"
  proof (cases plot)
    case True
    then show ?thesis
      by simp (rule steps_plot_block; rule assms(3); simp)
  next
    case False
    then show ?thesis by (simp add: steps_ret)
  qed
qed

lemma steps_rest:
  assumes "\<And>c. plot \<Longrightarrow> is_plt c \<Longrightarrow> ok c"
  shows "steps ok (if plot then plot_block lib sp3 else ret ())"
proof (cases plot)
  case True
  then show ?thesis
    by simp (rule steps_plot_block; rule assms; simp)
next
  case False
  then show ?thesis by (simp add: steps_ret)
qed

lemma steps_filter:
  assumes "steps ok m" and "\<And>c. ok c \<Longrightarrow> \<not> P c"
  shows "filter P (calls (snd (snd (m (w, t))))) = filter P (calls t)"
proof -
  from assms(1) obtain new where "snd (snd (m (w, t))) = t @ new" "list_all ok (calls new)"
    by (rule steps_at[where s = "(w, t)"]) simp
  moreover from this(2) assms(2) have "filter P (calls new) = []"
    by (auto simp: list_all_iff filter_empty_conv)
  ultimately show ?thesis by (simp add: calls_def)
qed

lemma steps_prefix:
  assumes "steps ok m"
  shows "take (length t) (calls (snd (snd (m (w, t))))) = calls t"
proof -
  from assms obtain new where "snd (snd (m (w, t))) = t @ new"
    by (rule steps_at[where s = "(w, t)"]) simp
  then show ?thesis by (simp add: calls_def)
qed

lemma steps_all:
  assumes "steps ok m" and "list_all ok (calls t)"
  shows "list_all ok (calls (snd (snd (m (w, t)))))"
proof -
  from assms(1) obtain new where "snd (snd (m (w, t))) = t @ new" "list_all ok (calls new)"
    by (rule steps_at[where s = "(w, t)"]) simp
  with assms(2) show ?thesis by (simp add: calls_def)
qed

lemma ends_invoke: "ends c (invoke c f)"
  by (auto simp: ends_def invoke_def split: prod.splits sum.splits)

lemma ends_then_do:
  assumes "\<And>a. ends c (f a)"
  shows "ends c (then_do m f)"
  unfolding ends_def
proof (intro allI impI)
  fix s b s'
  assume td: "then_do m f s = (Inr b, s')"
  obtain r s1 where ms: "m s = (r, s1)" by (cases "m s")
  with td obtain a where "r = Inr a" "f a s1 = (Inr b, s')"
    by (cases r) (auto simp: then_do_def)
  with assms[of a] show "snd s' \<noteq> [] \<and> last (snd s') = (c, None)"
    unfolding ends_def by blast
qed

lemma ends_plot_block:
  "ends (Savefig (replace (meta_filename sp3) ''_extract1dstep.fits'' ''.png'')) (plot_block lib sp3)"
  unfolding plot_block_def after_plot_def
  by (rule ends_then_do ends_invoke)+

lemma is_plt_not_Run: "is_plt c \<Longrightarrow> \<not> is_Run c"
  by (cases c) simp_all

lemma after_init_run:
  assumes init: "Extract1dStep_init lib w = (Inr x1d0, w1)"
    and run: "Extract1dStep_run lib (x1d_settings parfile x1d0) s2dfile w1 = (Inr sp3, w2)"
  shows "extract_spectrum lib s2dfile parfile plot (w, []) =
     (if plot then plot_block lib sp3 else ret ())
       (w2, [(New_Extract1dStep, None), (Run (x1d_settings parfile x1d0) s2dfile, None)])"
  by (simp add: extract_spectrum_segments then_do_invoke_Inr[where f = "Extract1dStep_init lib", OF init] then_do_invoke_Inr[where f = "Extract1dStep_run lib (x1d_settings parfile x1d0) s2dfile", OF run])

lemma after_init_run_raises:
  assumes init: "Extract1dStep_init lib w = (Inr x1d0, w1)"
    and run: "Extract1dStep_run lib (x1d_settings parfile x1d0) s2dfile w1 = (Inl e, w2)"
  shows "extract_spectrum lib s2dfile parfile plot (w, []) =
     (Inl (Raised e),
      (w2, [(New_Extract1dStep, None), (Run (x1d_settings parfile x1d0) s2dfile, Some e)]))"
  by (simp add: extract_spectrum_segments then_do_invoke_Inr[where f = "Extract1dStep_init lib", OF init] then_do_invoke_Inl[where f = "Extract1dStep_run lib (x1d_settings parfile x1d0) s2dfile", OF run])

lemma after_init_raises:
  assumes init: "Extract1dStep_init lib w = (Inl e, w1)"
  shows "extract_spectrum lib s2dfile parfile plot (w, []) =
     (Inl (Raised e), (w1, [(New_Extract1dStep, Some e)]))"
  by (simp add: extract_spectrum_segments then_do_invoke_Inl[where f = "Extract1dStep_init lib", OF init])

lemma is_not_Plot_after:
  "steps (\<lambda>c. \<not> is_Plot c) (after_plot lib sp3)"
  by (rule steps_after_plot) simp_all

lemma replace_from_absent: "\<not> sublist old s \<Longrightarrow> replace_from old new s = s"
proof (induction s)
  case Nil
  then show ?case by simp
next
  case (Cons c cs)
  then have "\<not> prefix old (c # cs)" and "\<not> sublist old cs"
    by (simp_all add: sublist_Cons_right)
  with Cons.IH show ?case by simp
qed

lemma replace_absent: "\<not> sublist old s \<Longrightarrow> replace s old new = s"
  by (cases "old = []") (auto simp: replace_def replace_from_absent)

lemma savefig_call:
  fixes lib :: "('w, 'e, 'c) library"
  assumes init: "Extract1dStep_init lib w = (Inr x1d0, w1)"
    and run: "Extract1dStep_run lib (x1d_settings parfile x1d0) s2dfile w1 = (Inr sp3, w2)"
  shows "(\<forall>f. Savefig f \<in> set (calls (trace_of (extract_spectrum lib s2dfile parfile plot) w)) \<longrightarrow>
            f = replace (meta_filename sp3) ''_extract1dstep.fits'' ''.png'') \<and>
         (plot \<and> result_of (extract_spectrum lib s2dfile parfile plot) w = Inr () \<longrightarrow>
            last (trace_of (extract_spectrum lib s2dfile parfile plot) w) =
              (Savefig (replace (meta_filename sp3) ''_extract1dstep.fits'' ''.png''), None))"
proof -
  let ?out = "replace (meta_filename sp3) ''_extract1dstep.fits'' ''.png''"
  let ?t0 = "[(New_Extract1dStep, None), (Run (x1d_settings parfile x1d0) s2dfile, None)]
      :: ('e, 'c) event list"
  let ?rest = "(if plot then plot_block lib sp3 else ret ()) :: ('w, 'e, 'c, unit) prog"
  let ?ok = "\<lambda>c :: 'c call. \<forall>f. c = Savefig f \<longrightarrow> f = ?out"
  note eq = after_init_run[OF init run, of plot]
  have "steps ?ok ?rest"
  proof (cases plot)
    case True
    then show ?thesis by simp (rule steps_plot_block; simp)
  next
    case False
    then show ?thesis by (simp add: steps_ret)
  qed
  then have "list_all ?ok (calls (snd (snd (?rest (w2, ?t0)))))"
    by (rule steps_all) (simp add: calls_def)
  then have 1: "\<forall>f. Savefig f \<in> set (calls (trace_of (extract_spectrum lib s2dfile parfile plot) w))
      \<longrightarrow> f = ?out"
    unfolding trace_of_def eq list_all_iff by blast
  have 2: "last (trace_of (extract_spectrum lib s2dfile parfile plot) w) = (Savefig ?out, None)"
    if "plot" and r: "result_of (extract_spectrum lib s2dfile parfile plot) w = Inr ()"
  proof -
    obtain s' where "plot_block lib sp3 (w2, ?t0) = (Inr (), s')"
      using r \<open>plot\<close> unfolding result_of_def eq
      by (cases "plot_block lib sp3 (w2, ?t0)") auto
    with ends_plot_block[of sp3 lib] have "last (snd s') = (Savefig ?out, None)"
      unfolding ends_def by blast
    with \<open>plot_block lib sp3 (w2, ?t0) = (Inr (), s')\<close> \<open>plot\<close> show ?thesis
      unfolding trace_of_def eq by simp
  qed
  from 1 2 show ?thesis by blast
qed

subsection \<open>The script on the stand-in library\<close>

lemma demo_init: "Extract1dStep_init (demo_lib name) w = (Inr demo_defaults, w)"
  by (simp add: demo_lib_def demo_defaults_def)

lemma demo_run:
  "Extract1dStep_run (demo_lib name) (x1d_settings p x0) i w =
     (Inr (demo_product name), (''./'' @ name) # w)"
  by (simp add: demo_lib_def x1d_settings_def)

lemma demo_noplot:
  "extract_spectrum (demo_lib name) i p False (w, []) =
     (Inr (), (''./'' @ name) # w,
      [(New_Extract1dStep, None), (Run (x1d_settings p demo_defaults) i, None)])"
  by (simp add: extract_spectrum_segments then_do_invoke_Inr[OF demo_init]
        then_do_invoke_Inr[OF demo_run] ret_def)

lemma demo_replace: "replace ''obs_extract1dstep.fits'' ''_extract1dstep.fits'' ''.png'' = ''obs.png''"
  by (simp add: replace_def)

lemma demo_plt:
  "plt_figure (demo_lib name) sz w = (Inr (), w)"
  "plt_plot (demo_lib name) x y w = (Inr (), w)"
  "plt_title (demo_lib name) l w = (Inr (), w)"
  "plt_xlabel (demo_lib name) l w = (Inr (), w)"
  "plt_ylabel (demo_lib name) l w = (Inr (), w)"
  "plt_savefig (demo_lib name) l w = (Inr (), l # w)"
  by (simp_all add: demo_lib_def)

lemma demo_plot:
  "extract_spectrum (demo_lib ''obs_extract1dstep.fits'') i p True (w, []) =
     (Inr (), ''obs.png'' # ''./obs_extract1dstep.fits'' # w,
      [(New_Extract1dStep, None), (Run (x1d_settings p demo_defaults) i, None),
       (Figure [10, 6], None), (Plot [5, 6] [1, 2], None),
       (Title ''obs_extract1dstep.fits'', None), (Xlabel ''micron'', None),
       (Ylabel ''Jy'', None), (Savefig ''obs.png'', None)])"
  apply (simp only: extract_spectrum_segments then_do_invoke_Inr[OF demo_init]
        then_do_invoke_Inr[OF demo_run] if_True plot_block_def after_plot_def
        then_do_invoke_Inr[OF demo_plt(1)])
  apply (simp add: demo_product_def then_do_subscript0_Cons then_do_column_Some
        then_do_invoke_Inr[OF demo_plt(2)] then_do_invoke_Inr[OF demo_plt(3)]
        then_do_invoke_Inr[OF demo_plt(4)] then_do_invoke_Inr[OF demo_plt(5)]
        demo_replace invoke_def demo_plt(6))
  done


lemma broken_title:
  "extract_spectrum (broken_title_lib ''obs_extract1dstep.fits'') i p True (w, []) =
     (Inl (Raised ''no display''), ''./obs_extract1dstep.fits'' # w,
      [(New_Extract1dStep, None), (Run (x1d_settings p demo_defaults) i, None),
       (Figure [10, 6], None), (Plot [5, 6] [1, 2], None),
       (Title ''obs_extract1dstep.fits'', Some ''no display'')])"
proof -
  let ?lib = "broken_title_lib ''obs_extract1dstep.fits''"
  have i: "Extract1dStep_init ?lib w = (Inr demo_defaults, w)" for w
    by (simp add: broken_title_lib_def demo_init)
  have r: "Extract1dStep_run ?lib (x1d_settings p x0) i w =
     (Inr (demo_product ''obs_extract1dstep.fits''), ''./obs_extract1dstep.fits'' # w)" for x0 w
    using demo_run[of "''obs_extract1dstep.fits''" p x0 i w] by (simp add: broken_title_lib_def)
  have f: "plt_figure ?lib sz w = (Inr (), w)" for sz w
    by (simp add: broken_title_lib_def demo_plt)
  have pl: "plt_plot ?lib x y w = (Inr (), w)" for x y w
    by (simp add: broken_title_lib_def demo_plt)
  have t: "plt_title ?lib l w = (Inl ''no display'', w)" for l w
    by (simp add: broken_title_lib_def)
  show ?thesis
    apply (simp only: extract_spectrum_segments then_do_invoke_Inr[OF i]
        then_do_invoke_Inr[OF r] if_True plot_block_def after_plot_def
        then_do_invoke_Inr[OF f])
    apply (simp add: demo_product_def then_do_subscript0_Cons then_do_column_Some
        then_do_invoke_Inr[OF pl] then_do_invoke_Inl[OF t])
    done
qed

lemma demo_plot_any:
  "extract_spectrum (demo_lib name) i p True (w, []) =
     (Inr (), replace name ''_extract1dstep.fits'' ''.png'' # (''./'' @ name) # w,
      [(New_Extract1dStep, None), (Run (x1d_settings p demo_defaults) i, None),
       (Figure [10, 6], None), (Plot [5, 6] [1, 2], None),
       (Title name, None), (Xlabel ''micron'', None),
       (Ylabel ''Jy'', None), (Savefig (replace name ''_extract1dstep.fits'' ''.png''), None)])"
  apply (simp only: extract_spectrum_segments then_do_invoke_Inr[OF demo_init]
        then_do_invoke_Inr[OF demo_run] if_True plot_block_def after_plot_def
        then_do_invoke_Inr[OF demo_plt(1)])
  apply (simp add: demo_product_def then_do_subscript0_Cons then_do_column_Some
        then_do_invoke_Inr[OF demo_plt(2)] then_do_invoke_Inr[OF demo_plt(3)]
        then_do_invoke_Inr[OF demo_plt(4)] then_do_invoke_Inr[OF demo_plt(5)]
        invoke_def demo_plt(6))
  done

lemma demo_absent: "\<not> sublist ''_extract1dstep.fits'' ''obs_x1d.fits''"
  by (simp add: sublist_Cons_right)

subsection \<open>The trace is what the libraries receive\<close>

lemma recording_sel:
  "Extract1dStep_init (recording lib) = logged New_Extract1dStep (Extract1dStep_init lib)"
  "Extract1dStep_run (recording lib) x1d inp = logged (Run x1d inp) (Extract1dStep_run lib x1d inp)"
  "plt_figure (recording lib) figsize = logged (Figure figsize) (plt_figure lib figsize)"
  "plt_plot (recording lib) x y = logged (Plot x y) (plt_plot lib x y)"
  "plt_title (recording lib) label = logged (Title label) (plt_title lib label)"
  "plt_xlabel (recording lib) label = logged (Xlabel label) (plt_xlabel lib label)"
  "plt_ylabel (recording lib) label = logged (Ylabel label) (plt_ylabel lib label)"
  "plt_savefig (recording lib) fname = logged (Savefig fname) (plt_savefig lib fname)"
  by (simp_all add: recording_def)

lemma mirrors_ret: "mirrors (ret a) (ret a)"
  by (simp add: mirrors_def ret_def)

lemma mirrors_raise: "mirrors (raise x) (raise x)"
  by (simp add: mirrors_def raise_def)

lemma mirrors_subscript0: "mirrors (subscript0 xs) (subscript0 xs)"
  by (cases xs) (simp_all add: subscript0_def mirrors_ret mirrors_raise)

lemma mirrors_column: "mirrors (column t name) (column t name)"
  by (cases "t name") (simp_all add: column_def mirrors_ret mirrors_raise)

lemma mirrors_invoke:
  fixes f :: "'w \<Rightarrow> ('e + 'a) \<times> 'w" and c :: "'c call"
  shows "mirrors (invoke c (logged c f)) (invoke c f)"
  unfolding mirrors_def
proof (intro allI)
  fix w :: 'w and t :: "('e, 'c) event list"
  obtain r w' where fw: "f w = (r, w')" by (cases "f w")
  show "invoke c (logged c f) ((w, t), t) =
      (case invoke c f (w, t) of (r, (w', t')) \<Rightarrow> (r, ((w', t'), t')))"
    by (cases r) (simp_all add: invoke_def logged_def fw)
qed

lemma mirrors_then_do:
  fixes m :: "('w, 'e, 'c, 'a) prog" and f :: "'a \<Rightarrow> ('w, 'e, 'c, 'b) prog"
  assumes m: "mirrors m' m" and f: "\<And>a. mirrors (f' a) (f a)"
  shows "mirrors (then_do m' f') (then_do m f)"
  unfolding mirrors_def
proof (intro allI)
  fix w :: 'w and t :: "('e, 'c) event list"
  obtain r w1 t1 where ms: "m (w, t) = (r, (w1, t1))" by (cases "m (w, t)") auto
  with m have ms': "m' ((w, t), t) = (r, ((w1, t1), t1))"
    unfolding mirrors_def by simp
  show "then_do m' f' ((w, t), t) =
      (case then_do m f (w, t) of (r, (w', t')) \<Rightarrow> (r, ((w', t'), t')))"
  proof (cases r)
    case (Inl x)
    with ms ms' show ?thesis by (simp add: then_do_def)
  next
    case (Inr a)
    with ms ms' have "then_do m' f' ((w, t), t) = f' a ((w1, t1), t1)"
      and "then_do m f (w, t) = f a (w1, t1)"
      by (simp_all add: then_do_def)
    with f[of a] show ?thesis unfolding mirrors_def by simp
  qed
qed

lemma mirrors_after_plot: "mirrors (after_plot (recording lib) sp3) (after_plot lib sp3)"
  unfolding after_plot_def recording_sel
  by (rule mirrors_then_do mirrors_invoke)+

lemma mirrors_plot_block: "mirrors (plot_block (recording lib) sp3) (plot_block lib sp3)"
  unfolding plot_block_def recording_sel
  by (rule mirrors_then_do mirrors_invoke mirrors_subscript0 mirrors_column mirrors_after_plot)+

lemma mirrors_extract_spectrum:
  fixes lib :: "('w, 'e, 'c) library"
  shows "mirrors (extract_spectrum (recording lib) s2dfile parfile plot)
     (extract_spectrum lib s2dfile parfile plot)"
  unfolding extract_spectrum_segments recording_sel
proof ((rule mirrors_then_do mirrors_invoke)+)
  fix sp3 :: "'c MultiSpecModel"
  show "mirrors (if plot then plot_block (recording lib) sp3 else ret ())
     (if plot then plot_block lib sp3 else ret ())"
    by (simp add: mirrors_plot_block mirrors_ret)
qed

lemma received_trace:
  "received (extract_spectrum (recording lib) s2dfile parfile plot) w =
     trace_of (extract_spectrum lib s2dfile parfile plot) w"
  using mirrors_extract_spectrum[of lib s2dfile parfile plot]
  unfolding mirrors_def received_def world_of_def trace_of_def
  by (simp split: prod.splits)

lemma result_mirrored:
  fixes lib :: "('w, 'e, 'c) library"
  shows "result_of (extract_spectrum (recording lib) s2dfile parfile plot) (w, []) =
     result_of (extract_spectrum lib s2dfile parfile plot) w"
  using mirrors_extract_spectrum[of lib s2dfile parfile plot]
  unfolding mirrors_def result_of_def
  by (simp split: prod.splits)

subsection \<open>Facts about the trace\<close>

lemma trace_fixed_settings:
  fixes lib :: "('w, 'e, 'c) library"
  assumes "Run x1d inp \<in> set (calls (trace_of (extract_spectrum lib s2dfile parfile plot) w))"
  shows "save_results x1d \<and> output_dir x1d = Some ''./'' \<and> use_source_posn x1d = Some False"
proof -
  let ?ok = "\<lambda>c. \<forall>x i. c = Run x i \<longrightarrow>
      save_results x \<and> output_dir x = Some ''./'' \<and> use_source_posn x = Some False"
  have "steps ?ok (extract_spectrum lib s2dfile parfile plot)"
  proof (rule steps_extract_spectrum)
    show "?ok New_Extract1dStep" by simp
    show "?ok (Run (x1d_settings parfile x1d0) s2dfile)" for x1d0
      by (simp add: x1d_settings_def)
    show "?ok c" if "is_plt c" for c :: "'c call"
      using that by (cases c) simp_all
  qed
  then have "list_all ?ok (calls (trace_of (extract_spectrum lib s2dfile parfile plot) w))"
    by (rule steps_trace_of)
  with assms show ?thesis
    unfolding list_all_iff by blast
qed

lemma trace_exceptions:
  fixes lib :: "('w, 'e, 'c) library"
  shows "((c, Some e) \<in> set (trace_of (extract_spectrum lib s2dfile parfile plot) w) \<longrightarrow>
            result_of (extract_spectrum lib s2dfile parfile plot) w = Inl (Raised e) \<and>
            last (trace_of (extract_spectrum lib s2dfile parfile plot) w) = (c, Some e)) \<and>
         (result_of (extract_spectrum lib s2dfile parfile plot) w = Inl (Raised e) \<longrightarrow>
            trace_of (extract_spectrum lib s2dfile parfile plot) w \<noteq> [] \<and>
            snd (last (trace_of (extract_spectrum lib s2dfile parfile plot) w)) = Some e)"
proof -
  let ?t = "trace_of (extract_spectrum lib s2dfile parfile plot) w"
  let ?r = "result_of (extract_spectrum lib s2dfile parfile plot) w"
  have "steps (\<lambda>c. True) (extract_spectrum lib s2dfile parfile plot)"
    by (rule steps_extract_spectrum) simp_all
  then obtain new where n: "?t = new" "list_all returned (butlast new)"
    "case ?r of Inl (Raised e) \<Rightarrow> new \<noteq> [] \<and> snd (last new) = Some e
         | _ \<Rightarrow> list_all returned new"
    unfolding trace_of_def result_of_def
    by (rule steps_at[where s = "(w, [])"]) simp
  have 1: "?r = Inl (Raised e) \<and> last ?t = (c, Some e)" if m: "(c, Some e) \<in> set ?t"
  proof -
    from m have ne: "?t \<noteq> []" by auto
    then have app: "?t = butlast ?t @ [last ?t]" by simp
    from m n(1,2) have "(c, Some e) \<notin> set (butlast ?t)"
      by (auto simp: list_all_iff returned_def)
    with m app have l: "last ?t = (c, Some e)"
      by (metis Un_iff empty_iff empty_set set_ConsD set_append)
    from m have "\<not> list_all returned ?t"
      by (force simp: list_all_iff returned_def)
    with n(1,3) l have "?r = Inl (Raised e)"
      by (auto split: sum.splits exn.splits)
    with l show ?thesis by simp
  qed
  have 2: "?t \<noteq> [] \<and> snd (last ?t) = Some e" if "?r = Inl (Raised e)"
    using that n(1,3) by simp
  from 1 2 show ?thesis by blast
qed

lemma trace_run_once:
  fixes lib :: "('w, 'e, 'c) library"
  assumes init: "Extract1dStep_init lib w = (Inr x1d0, w1)"
  shows "take 2 (calls (trace_of (extract_spectrum lib s2dfile parfile plot) w)) =
       [New_Extract1dStep, Run (x1d_settings parfile x1d0) s2dfile] \<and>
     filter is_Run (calls (trace_of (extract_spectrum lib s2dfile parfile plot) w)) =
       [Run (x1d_settings parfile x1d0) s2dfile]"
proof -
  let ?x = "x1d_settings parfile x1d0"
  let ?t = "calls (trace_of (extract_spectrum lib s2dfile parfile plot) w)"
  obtain r w2 where run: "Extract1dStep_run lib ?x s2dfile w1 = (r, w2)"
    by (cases "Extract1dStep_run lib ?x s2dfile w1")
  show "take 2 ?t = [New_Extract1dStep, Run ?x s2dfile] \<and> filter is_Run ?t = [Run ?x s2dfile]"
  proof (cases r)
    case (Inl e)
    with run have "Extract1dStep_run lib ?x s2dfile w1 = (Inl e, w2)" by simp
    from after_init_run_raises[OF init this] show ?thesis
      by (simp add: trace_of_def calls_def)
  next
    case (Inr sp3)
    with run have "Extract1dStep_run lib ?x s2dfile w1 = (Inr sp3, w2)" by simp
    note eq = after_init_run[OF init this, of plot]
    let ?t0 = "[(New_Extract1dStep, None), (Run ?x s2dfile, None)] :: ('e, 'c) event list"
    have st: "steps (\<lambda>c. \<not> is_Run c) (if plot then plot_block lib sp3 else ret ())"
      by (rule steps_rest) (rule is_plt_not_Run)
    let ?t1 = "calls (snd (snd ((if plot then plot_block lib sp3 else ret ()) (w2, ?t0))))"
    have f1: "filter is_Run ?t1 = [Run ?x s2dfile]"
      using steps_filter[OF st, of is_Run w2 ?t0] by (simp add: calls_def)
    have "length ?t0 = 2" by simp
    with steps_prefix[OF st, of ?t0 w2] have f2: "take 2 ?t1 = [New_Extract1dStep, Run ?x s2dfile]"
      by (simp only: calls_def list.map fst_conv)
    show ?thesis
      unfolding trace_of_def eq by (rule conjI[OF f2 f1])
  qed
qed

lemma trace_plot_columns:
  fixes lib :: "('w, 'e, 'c) library"
  assumes init: "Extract1dStep_init lib w = (Inr x1d0, w1)"
    and run: "Extract1dStep_run lib (x1d_settings parfile x1d0) s2dfile w1 = (Inr sp3, w2)"
    and fig: "plt_figure lib [10, 6] w2 = (Inr u, w3)"
    and sp: "spec sp3 = s0 # rest"
    and wl: "spec_table s0 ''WAVELENGTH'' = Some wavelength"
    and fl: "spec_table s0 ''FLUX'' = Some flux"
  shows "take 4 (calls (trace_of (extract_spectrum lib s2dfile parfile True) w)) =
       [New_Extract1dStep, Run (x1d_settings parfile x1d0) s2dfile, Figure [10, 6],
        Plot wavelength flux] \<and>
     filter is_Plot (calls (trace_of (extract_spectrum lib s2dfile parfile True) w)) =
       [Plot wavelength flux]"
proof -
  let ?t0 = "[(New_Extract1dStep, None), (Run (x1d_settings parfile x1d0) s2dfile, None),
              (Figure [10, 6], None)] :: ('e, 'c) event list"
  obtain r w4 where pl: "plt_plot lib wavelength flux w3 = (r, w4)"
    by (cases "plt_plot lib wavelength flux w3")
  have eq: "extract_spectrum lib s2dfile parfile True (w, []) =
     then_do (invoke (Plot wavelength flux) (plt_plot lib wavelength flux))
       (\<lambda>_. after_plot lib sp3) (w3, ?t0)"
    by (simp add: after_init_run[OF init run] plot_block_def
        then_do_invoke_Inr[where f = "plt_figure lib [10, 6]", OF fig]
        sp then_do_subscript0_Cons then_do_column_Some[where t = "spec_table s0", OF wl]
        then_do_column_Some[where t = "spec_table s0", OF fl])
  show ?thesis
  proof (cases r)
    case (Inl e)
    with pl have "plt_plot lib wavelength flux w3 = (Inl e, w4)" by simp
    then show ?thesis
      by (simp add: trace_of_def eq calls_def
          then_do_invoke_Inl[where f = "plt_plot lib wavelength flux"])
  next
    case (Inr v)
    let ?t1 = "[(New_Extract1dStep, None), (Run (x1d_settings parfile x1d0) s2dfile, None),
              (Figure [10, 6], None), (Plot wavelength flux, None)] :: ('e, 'c) event list"
    from Inr pl have "plt_plot lib wavelength flux w3 = (Inr v, w4)" by simp
    then have e2: "extract_spectrum lib s2dfile parfile True (w, []) =
      after_plot lib sp3 (w4, ?t1)"
      by (simp add: eq then_do_invoke_Inr[where f = "plt_plot lib wavelength flux"])
    have "length ?t1 = 4" by simp
    with steps_prefix[OF is_not_Plot_after, of ?t1 lib sp3 w4]
    have f2: "take 4 (calls (snd (snd (after_plot lib sp3 (w4, ?t1))))) =
       [New_Extract1dStep, Run (x1d_settings parfile x1d0) s2dfile, Figure [10, 6],
        Plot wavelength flux]"
      by (simp only: calls_def list.map fst_conv)
    from steps_filter[OF is_not_Plot_after, of is_Plot lib sp3 w4 ?t1]
    have f1: "filter is_Plot (calls (snd (snd (after_plot lib sp3 (w4, ?t1))))) =
       [Plot wavelength flux]"
      by (simp add: calls_def)
    show ?thesis
      unfolding trace_of_def e2 by (rule conjI[OF f2 f1])
  qed
qed

subsection \<open>Outcomes\<close>

lemma then_do_subscript0_Nil: "then_do (subscript0 []) f = raise IndexError"
  by (auto simp: then_do_def subscript0_def raise_def)

lemma then_do_column_None: "t name = None \<Longrightarrow> then_do (column t name) f = raise (KeyError name)"
  by (auto simp: then_do_def column_def raise_def)

lemma yields_raise: "yields (Inl x) (raise x)"
  by (simp add: yields_def raise_def)

lemma yields_invoke:
  fixes f :: "'w \<Rightarrow> ('e + unit) \<times> 'w" and c :: "'c call"
  shows "yields (Inr ()) (invoke c f)"
  unfolding yields_def
proof
  fix s :: "('w, 'e, 'c) state"
  show "fst (invoke c f s) = Inr () \<or> (\<exists>e. fst (invoke c f s) = Inl (Raised e))"
    by (cases "f (fst s)") (auto simp: invoke_def split: sum.splits)
qed

lemma yields_then_invoke:
  fixes f :: "'w \<Rightarrow> ('e + 'a) \<times> 'w" and c :: "'c call" and g :: "'a \<Rightarrow> ('w, 'e, 'c, 'b) prog"
  assumes "\<And>a. yields v (g a)"
  shows "yields v (then_do (invoke c f) g)"
  unfolding yields_def
proof
  fix s :: "('w, 'e, 'c) state"
  obtain r w' where fw: "f (fst s) = (r, w')" by (cases "f (fst s)")
  show "fst (then_do (invoke c f) g s) = v \<or> (\<exists>e. fst (then_do (invoke c f) g s) = Inl (Raised e))"
  proof (cases r)
    case (Inl e)
    with fw show ?thesis by (simp add: then_do_def invoke_def)
  next
    case (Inr a)
    with fw have "then_do (invoke c f) g s = g a (w', snd s @ [(c, None)])"
      by (simp add: then_do_def invoke_def)
    with assms[of a] show ?thesis unfolding yields_def by simp
  qed
qed

lemma yields_after_plot: "yields (Inr ()) (after_plot lib sp3)"
  unfolding after_plot_def
  by (rule yields_then_invoke yields_invoke)+

lemma yields_plot_block:
  fixes lib :: "('w, 'e, 'c) library"
  shows "yields (subscripts sp3) (plot_block lib sp3)"
proof (cases "spec sp3")
  case Nil
  then show ?thesis
    unfolding plot_block_def
    by (simp add: subscripts_def then_do_subscript0_Nil yields_then_invoke yields_raise)
next
  case (Cons s0 rest)
  show ?thesis
  proof (cases "spec_table s0 ''WAVELENGTH''")
    case None
    with Cons show ?thesis
      unfolding plot_block_def
      by (simp add: subscripts_def then_do_subscript0_Cons then_do_column_None
          yields_then_invoke yields_raise)
  next
    case wl: (Some x)
    show ?thesis
    proof (cases "spec_table s0 ''FLUX''")
      case None
      with Cons wl show ?thesis
        unfolding plot_block_def
        by (simp add: subscripts_def then_do_subscript0_Cons then_do_column_None
            then_do_column_Some yields_then_invoke yields_raise)
    next
      case (Some y)
      with Cons wl show ?thesis
        unfolding plot_block_def
        by (simp add: subscripts_def then_do_subscript0_Cons then_do_column_Some
            yields_then_invoke yields_after_plot)
    qed
  qed
qed

lemma outcome:
  fixes lib :: "('w, 'e, 'c) library"
  shows "(\<exists>e. result_of (extract_spectrum lib s2dfile parfile plot) w = Inl (Raised e)) \<or>
     (\<exists>x1d0 w1 sp3 w2. Extract1dStep_init lib w = (Inr x1d0, w1) \<and>
        Extract1dStep_run lib (x1d_settings parfile x1d0) s2dfile w1 = (Inr sp3, w2) \<and>
        result_of (extract_spectrum lib s2dfile parfile plot) w =
          (if plot then subscripts sp3 else Inr ()))"
proof -
  obtain r0 w1 where init: "Extract1dStep_init lib w = (r0, w1)"
    by (cases "Extract1dStep_init lib w")
  show ?thesis
  proof (cases r0)
    case (Inl e)
    with init have "Extract1dStep_init lib w = (Inl e, w1)" by simp
    from after_init_raises[OF this] show ?thesis by (simp add: result_of_def)
  next
    case (Inr x1d0)
    with init have i: "Extract1dStep_init lib w = (Inr x1d0, w1)" by simp
    obtain r w2 where run: "Extract1dStep_run lib (x1d_settings parfile x1d0) s2dfile w1 = (r, w2)"
      by (cases "Extract1dStep_run lib (x1d_settings parfile x1d0) s2dfile w1")
    show ?thesis
    proof (cases r)
      case (Inl e)
      with run have "Extract1dStep_run lib (x1d_settings parfile x1d0) s2dfile w1 = (Inl e, w2)"
        by simp
      from after_init_run_raises[OF i this] show ?thesis by (simp add: result_of_def)
    next
      case (Inr sp3)
      with run have rr: "Extract1dStep_run lib (x1d_settings parfile x1d0) s2dfile w1 = (Inr sp3, w2)"
        by simp
      note eq = after_init_run[OF i rr, of plot]
      show ?thesis
      proof (cases plot)
        case False
        with eq have "result_of (extract_spectrum lib s2dfile parfile plot) w = Inr ()"
          by (simp add: result_of_def ret_def)
        with i rr False show ?thesis by simp
      next
        case True
        let ?s = "(w2, [(New_Extract1dStep, None), (Run (x1d_settings parfile x1d0) s2dfile, None)])"
        from yields_plot_block[of sp3 lib]
        have "fst (plot_block lib sp3 ?s) = subscripts sp3 \<or>
            (\<exists>e. fst (plot_block lib sp3 ?s) = Inl (Raised e))"
          unfolding yields_def by blast
        with eq True i rr show ?thesis by (auto simp: result_of_def)
      qed
    qed
  qed
qed

subsection \<open>The replacement\<close>

lemma prefix_within: "prefix old (xs @ ys) \<Longrightarrow> length old \<le> length xs \<Longrightarrow> prefix old xs"
  by (auto simp: prefix_append)

lemma replace_from_piece:
  assumes "old \<noteq> []"
  shows "\<not> sublist old (p @ butlast old) \<Longrightarrow>
     replace_from old new (p @ old @ rest) = p @ new @ replace_from old new rest"
proof (induction p)
  case Nil
  from assms obtain c cs where "old = c # cs" by (cases old) auto
  then show ?case by simp
next
  case (Cons c p)
  have "\<not> prefix old (c # p @ old @ rest)"
  proof
    assume pre: "prefix old (c # p @ old @ rest)"
    from assms have "old = butlast old @ [last old]" by simp
    then have "c # p @ old @ rest = ((c # p) @ butlast old) @ ([last old] @ rest)"
      by (metis append.assoc append_Cons)
    with pre have "prefix old (((c # p) @ butlast old) @ ([last old] @ rest))" by simp
    moreover have "length old \<le> length ((c # p) @ butlast old)" by simp
    ultimately have "prefix old ((c # p) @ butlast old)" by (rule prefix_within)
    then have "sublist old ((c # p) @ butlast old)" by (rule prefix_imp_sublist)
    with Cons.prems show False by simp
  qed
  moreover from Cons.prems have "\<not> sublist old (p @ butlast old)"
    by (simp add: sublist_Cons_right)
  ultimately show ?case using Cons.IH by simp
qed

lemma replace_pieces:
  "old \<noteq> [] \<Longrightarrow> pieces old ps \<Longrightarrow> replace (join old ps) old new = join new ps"
proof (induction old ps rule: join.induct)
  case (1 sep)
  then show ?case by (simp add: pieces_def)
next
  case (2 sep x)
  then show ?case by (simp add: pieces_def replace_absent)
next
  case (3 sep x y ys)
  from "3.prems"(2) have a: "\<not> sublist sep (x @ butlast sep)" and b: "pieces sep (y # ys)"
    by (simp_all add: pieces_def)
  from "3.IH"[OF "3.prems"(1) b] "3.prems"(1)
  have "replace_from sep new (join sep (y # ys)) = join new (y # ys)"
    by (simp add: replace_def)
  with replace_from_piece[OF "3.prems"(1) a, of new "join sep (y # ys)"] "3.prems"(1)
  show ?case by (simp add: replace_def)
qed

subsection \<open>The script on the other stand-in libraries\<close>

lemma no_step_init: "Extract1dStep_init no_step_lib w = (Inl ''no reference files'', w)"
  by (simp add: no_step_lib_def)

lemma in_cwd_dot: "in_cwd (''./'' @ path) = in_cwd path"
  by simp

lemma disk_init: "Extract1dStep_init (disk_lib name) w = (Inr demo_defaults, w)"
  by (simp add: disk_lib_def)

lemma disk_run:
  "Extract1dStep_run (disk_lib name) (x1d_settings p x0) i w =
     (Inr (demo_product name), w(in_cwd name \<mapsto> Spectrum_product))"
  by (simp add: disk_lib_def x1d_settings_def)

lemma disk_plt:
  "plt_figure (disk_lib name) sz w = (Inr (), w)"
  "plt_plot (disk_lib name) x y w = (Inr (), w)"
  "plt_title (disk_lib name) l w = (Inr (), w)"
  "plt_xlabel (disk_lib name) l w = (Inr (), w)"
  "plt_ylabel (disk_lib name) l w = (Inr (), w)"
  "plt_savefig (disk_lib name) l w = (Inr (), w(in_cwd l \<mapsto> Plot_image))"
  by (simp_all add: disk_lib_def)

lemma disk_noplot:
  "world_of (extract_spectrum (disk_lib name) i p False) w = w(in_cwd name \<mapsto> Spectrum_product)"
  by (simp add: world_of_def extract_spectrum_segments then_do_invoke_Inr[OF disk_init]
        then_do_invoke_Inr[OF disk_run] ret_def fun_upd_def)

lemma disk_plot:
  "world_of (extract_spectrum (disk_lib name) i p True) w =
     w(in_cwd name \<mapsto> Spectrum_product,
       in_cwd (replace name ''_extract1dstep.fits'' ''.png'') \<mapsto> Plot_image)"
  unfolding world_of_def
  apply (simp only: extract_spectrum_segments then_do_invoke_Inr[OF disk_init]
        then_do_invoke_Inr[OF disk_run] if_True plot_block_def after_plot_def
        then_do_invoke_Inr[OF disk_plt(1)])
  apply (simp add: demo_product_def then_do_subscript0_Cons then_do_column_Some
        then_do_invoke_Inr[OF disk_plt(2)] then_do_invoke_Inr[OF disk_plt(3)]
        then_do_invoke_Inr[OF disk_plt(4)] then_do_invoke_Inr[OF disk_plt(5)]
        invoke_def disk_plt(6) fun_upd_def)
  done

lemma demo_pieces: "pieces ''_extract1dstep.fits'' [''obs'', []]"
  by (simp add: pieces_def sublist_Cons_right)

subsection \<open>The settings of the step\<close>

text \<open>
  Claim C9.  Whatever the three arguments are, every \<^verbatim>\<open>run\<close> that the pipeline library
  receives from \<open>extract_spectrum\<close> is on a step object with \<^verbatim>\<open>save_results = True\<close>,
  \<^verbatim>\<open>output_dir = './'\<close> and \<^verbatim>\<open>use_source_posn = False\<close>; and when the constructor
  returned a step object, the library receives exactly one \<^verbatim>\<open>run\<close>, on that object with the
  four assignments of lines 15 to 18 made.
\<close>

theorem fixed_settings:
  fixes lib :: "('w, 'e, 'c) library"
  shows "(\<forall>x1d inp. Run x1d inp \<in> set (calls (received
              (extract_spectrum (recording lib) s2dfile parfile plot) w)) \<longrightarrow>
            save_results x1d \<and> output_dir x1d = Some ''./'' \<and> use_source_posn x1d = Some False) \<and>
         (\<forall>x1d0 w1. Extract1dStep_init lib w = (Inr x1d0, w1) \<longrightarrow>
            filter is_Run (calls (received
              (extract_spectrum (recording lib) s2dfile parfile plot) w)) =
              [Run (x1d0\<lparr>save_results := True, output_dir := Some ''./'',
                         override_extract1d := Some parfile, use_source_posn := Some False\<rparr>)
                 s2dfile])"
  unfolding received_trace
  using trace_fixed_settings[of _ _ lib s2dfile parfile plot w]
    trace_run_once[where lib = lib and w = w and parfile = parfile and s2dfile = s2dfile and plot = plot]
  by (simp add: x1d_settings_def)

theorem fixed_settings_witness:
  "Run \<lparr>save_results = True, output_dir = Some ''./'', override_extract1d = Some ''par.json'',
        use_source_posn = Some False\<rparr> ''in_s2d.fits''
     \<in> set (calls (received (extract_spectrum (recording (demo_lib ''obs_extract1dstep.fits''))
                ''in_s2d.fits'' ''par.json'' True) [])) \<and>
   Extract1dStep_init (demo_lib ''obs_extract1dstep.fits'') [] =
     (Inr \<lparr>save_results = False, output_dir = None, override_extract1d = None,
           use_source_posn = None\<rparr>, []) \<and>
   filter is_Run (calls (received (extract_spectrum (recording (demo_lib ''obs_extract1dstep.fits''))
                ''in_s2d.fits'' ''par.json'' True) [])) =
     [Run \<lparr>save_results = True, output_dir = Some ''./'', override_extract1d = Some ''par.json'',
           use_source_posn = Some False\<rparr> ''in_s2d.fits'']"
proof -
  have m: "Run \<lparr>save_results = True, output_dir = Some ''./'', override_extract1d = Some ''par.json'',
        use_source_posn = Some False\<rparr> ''in_s2d.fits''
     \<in> set (calls (received (extract_spectrum (recording (demo_lib ''obs_extract1dstep.fits''))
                ''in_s2d.fits'' ''par.json'' True) []))"
    by (simp add: received_trace trace_of_def calls_def demo_plot x1d_settings_def demo_defaults_def)
  have i: "Extract1dStep_init (demo_lib ''obs_extract1dstep.fits'') [] =
     (Inr \<lparr>save_results = False, output_dir = None, override_extract1d = None,
           use_source_posn = None\<rparr>, [])"
    by (simp add: demo_init demo_defaults_def)
  from fixed_settings[where lib = "demo_lib ''obs_extract1dstep.fits''" and w = "[]"
      and s2dfile = "''in_s2d.fits''" and parfile = "''par.json''" and plot = True] m i
  show ?thesis by simp
qed

subsection \<open>Exceptions\<close>

text \<open>
  Claim C5.  \<open>extract_spectrum\<close> handles no exception and checks nothing itself.  With \<open>t\<close>
  what the libraries received and \<open>r\<close> the outcome of the function: a library call that
  raised \<open>e\<close> is the last call made, and \<open>e\<close> is the outcome; a library exception is the
  outcome only when the last call raised it; and when every call returned, the step was
  made and run, and the outcome is decided by the product alone: nothing is raised without
  the plot flag, and with it only the \<^verbatim>\<open>IndexError\<close> or \<^verbatim>\<open>KeyError\<close> of the subscripts of
  line 25, which is not handled either.
\<close>

theorem exceptions_propagate:
  fixes lib :: "('w, 'e, 'c) library" and s2dfile parfile plot w
  defines "t \<equiv> received (extract_spectrum (recording lib) s2dfile parfile plot) w"
    and "r \<equiv> result_of (extract_spectrum lib s2dfile parfile plot) w"
  shows "((c, Some e) \<in> set t \<longrightarrow> r = Inl (Raised e) \<and> last t = (c, Some e)) \<and>
         (r = Inl (Raised e) \<longrightarrow> t \<noteq> [] \<and> snd (last t) = Some e) \<and>
         (list_all returned t \<longrightarrow>
            (\<exists>x1d0 w1 sp3 w2. Extract1dStep_init lib w = (Inr x1d0, w1) \<and>
               Extract1dStep_run lib (x1d_settings parfile x1d0) s2dfile w1 = (Inr sp3, w2) \<and>
               take 2 (calls t) = [New_Extract1dStep, Run (x1d_settings parfile x1d0) s2dfile] \<and>
               r = (if plot then subscripts sp3 else Inr ())))"
proof -
  note te = trace_exceptions[of _ _ lib s2dfile parfile plot w, folded received_trace,
      folded t_def r_def]
  have 3: "\<exists>x1d0 w1 sp3 w2. Extract1dStep_init lib w = (Inr x1d0, w1) \<and>
               Extract1dStep_run lib (x1d_settings parfile x1d0) s2dfile w1 = (Inr sp3, w2) \<and>
               take 2 (calls t) = [New_Extract1dStep, Run (x1d_settings parfile x1d0) s2dfile] \<and>
               r = (if plot then subscripts sp3 else Inr ())" if all: "list_all returned t"
  proof -
    have "r \<noteq> Inl (Raised e')" for e'
    proof
      assume "r = Inl (Raised e')"
      with te[of _ e'] have "t \<noteq> []" "snd (last t) = Some e'" by simp_all
      then have "\<not> returned (last t)" "last t \<in> set t" by (simp_all add: returned_def)
      with all show False by (auto simp: list_all_iff)
    qed
    with outcome[of lib s2dfile parfile plot w] obtain x1d0 w1 sp3 w2 where
        i: "Extract1dStep_init lib w = (Inr x1d0, w1)"
      and rr: "Extract1dStep_run lib (x1d_settings parfile x1d0) s2dfile w1 = (Inr sp3, w2)"
      and o: "r = (if plot then subscripts sp3 else Inr ())"
      unfolding r_def by blast
    from trace_run_once[OF i, where parfile = parfile and s2dfile = s2dfile and plot = plot]
    have "take 2 (calls t) = [New_Extract1dStep, Run (x1d_settings parfile x1d0) s2dfile]"
      unfolding t_def received_trace by simp
    with i rr o show ?thesis by blast
  qed
  from te[of c e] 3 show ?thesis by blast
qed

theorem exceptions_propagate_witness:
  "(Title ''obs_extract1dstep.fits'', Some ''no display'')
     \<in> set (received (extract_spectrum (recording (broken_title_lib ''obs_extract1dstep.fits''))
                ''in_s2d.fits'' ''par.json'' True) []) \<and>
   result_of (extract_spectrum (broken_title_lib ''obs_extract1dstep.fits'')
                ''in_s2d.fits'' ''par.json'' True) [] = Inl (Raised ''no display'') \<and>
   last (received (extract_spectrum (recording (broken_title_lib ''obs_extract1dstep.fits''))
                ''in_s2d.fits'' ''par.json'' True) [])
     = (Title ''obs_extract1dstep.fits'', Some ''no display'') \<and>
   list_all returned (received (extract_spectrum (recording (demo_lib ''obs_extract1dstep.fits''))
                ''in_s2d.fits'' ''par.json'' True) []) \<and>
   result_of (extract_spectrum (demo_lib ''obs_extract1dstep.fits'')
                ''in_s2d.fits'' ''par.json'' True) [] = Inr ()"
proof -
  have m: "(Title ''obs_extract1dstep.fits'', Some ''no display'')
     \<in> set (received (extract_spectrum (recording (broken_title_lib ''obs_extract1dstep.fits''))
                ''in_s2d.fits'' ''par.json'' True) [])"
    by (simp add: received_trace trace_of_def broken_title)
  have a: "list_all returned (received (extract_spectrum
      (recording (demo_lib ''obs_extract1dstep.fits'')) ''in_s2d.fits'' ''par.json'' True) [])"
    by (simp add: received_trace trace_of_def demo_plot returned_def)
  have s: "subscripts (demo_product ''obs_extract1dstep.fits'') = Inr ()"
    by (simp add: subscripts_def demo_product_def)
  from exceptions_propagate[where c = "Title ''obs_extract1dstep.fits''" and e = "''no display''"
      and lib = "broken_title_lib ''obs_extract1dstep.fits''" and w = "[]"
      and s2dfile = "''in_s2d.fits''" and parfile = "''par.json''" and plot = True] m
  have 1: "result_of (extract_spectrum (broken_title_lib ''obs_extract1dstep.fits'')
                ''in_s2d.fits'' ''par.json'' True) [] = Inl (Raised ''no display'') \<and>
   last (received (extract_spectrum (recording (broken_title_lib ''obs_extract1dstep.fits''))
                ''in_s2d.fits'' ''par.json'' True) [])
     = (Title ''obs_extract1dstep.fits'', Some ''no display'')"
    by blast
  from exceptions_propagate[where c = "Title ''obs_extract1dstep.fits''" and e = "''no display''"
      and lib = "demo_lib ''obs_extract1dstep.fits''" and w = "[]"
      and s2dfile = "''in_s2d.fits''" and parfile = "''par.json''" and plot = True] a
  have 2: "result_of (extract_spectrum (demo_lib ''obs_extract1dstep.fits'')
                ''in_s2d.fits'' ''par.json'' True) [] = Inr ()"
    by (auto simp: demo_init demo_run s)
  from m 1 a 2 show ?thesis by blast
qed

subsection \<open>The extraction step\<close>

text \<open>
  Claim C1, amended.  In every invocation in which the constructor returns the step object,
  \<open>extract_spectrum\<close> assigns the caller's parameter file to its \<^verbatim>\<open>override_extract1d\<close>
  and then runs it on the input file: the pipeline library receives the construction and
  then that \<^verbatim>\<open>run\<close>, and no other \<^verbatim>\<open>run\<close>, whatever happens afterwards.  In an invocation
  in which the constructor raises, the library receives nothing else: no step is run.
\<close>

theorem step_run_once:
  fixes lib :: "('w, 'e, 'c) library"
  shows "case Extract1dStep_init lib w of
       (Inl e, w1) \<Rightarrow>
         received (extract_spectrum (recording lib) s2dfile parfile plot) w =
           [(New_Extract1dStep, Some e)]
     | (Inr x1d0, w1) \<Rightarrow>
         override_extract1d (x1d_settings parfile x1d0) = Some parfile \<and>
         take 2 (calls (received (extract_spectrum (recording lib) s2dfile parfile plot) w)) =
           [New_Extract1dStep, Run (x1d_settings parfile x1d0) s2dfile] \<and>
         filter is_Run (calls (received (extract_spectrum (recording lib) s2dfile parfile plot) w)) =
           [Run (x1d_settings parfile x1d0) s2dfile]"
proof -
  obtain r0 w1 where init: "Extract1dStep_init lib w = (r0, w1)"
    by (cases "Extract1dStep_init lib w")
  show ?thesis
  proof (cases r0)
    case (Inl e)
    with init have i: "Extract1dStep_init lib w = (Inl e, w1)" by simp
    from after_init_raises[OF i, of s2dfile parfile plot] show ?thesis
      by (simp add: received_trace trace_of_def i)
  next
    case (Inr x1d0)
    with init have i: "Extract1dStep_init lib w = (Inr x1d0, w1)" by simp
    from trace_run_once[OF i, where parfile = parfile and s2dfile = s2dfile and plot = plot] show ?thesis
      by (simp add: received_trace i x1d_settings_def)
  qed
qed

text \<open>
  Claim C1 as it is written, for every invocation, fails on a library whose constructor
  raises: no \<^verbatim>\<open>run\<close> is received in that invocation.
\<close>

theorem step_never_run:
  "filter is_Run (calls (received (extract_spectrum (recording no_step_lib)
      ''in_s2d.fits'' ''par.json'' True) [])) = []"
  by (simp add: received_trace trace_of_def calls_def after_init_raises[OF no_step_init])

theorem step_run_once_witness:
  "Extract1dStep_init (demo_lib ''obs_extract1dstep.fits'') [] = (Inr demo_defaults, []) \<and>
   override_extract1d (x1d_settings ''par.json'' demo_defaults) = Some ''par.json'' \<and>
   take 2 (calls (received (extract_spectrum (recording (demo_lib ''obs_extract1dstep.fits''))
                     ''in_s2d.fits'' ''par.json'' True) [])) =
     [New_Extract1dStep, Run (x1d_settings ''par.json'' demo_defaults) ''in_s2d.fits''] \<and>
   filter is_Run (calls (received (extract_spectrum (recording (demo_lib ''obs_extract1dstep.fits''))
                     ''in_s2d.fits'' ''par.json'' True) [])) =
     [Run (x1d_settings ''par.json'' demo_defaults) ''in_s2d.fits''] \<and>
   Extract1dStep_init no_step_lib [] = (Inl ''no reference files'', []) \<and>
   received (extract_spectrum (recording no_step_lib) ''in_s2d.fits'' ''par.json'' True) [] =
     [(New_Extract1dStep, Some ''no reference files'')]"
  using step_run_once[where lib = "demo_lib ''obs_extract1dstep.fits''" and w = "[]"
      and s2dfile = "''in_s2d.fits''" and parfile = "''par.json''" and plot = True]
    step_run_once[where lib = no_step_lib and w = "[]"
      and s2dfile = "''in_s2d.fits''" and parfile = "''par.json''" and plot = True]
  by (simp add: demo_init no_step_init)

subsection \<open>Without the plot flag\<close>

text \<open>
  Claim C4.  With the plot flag false no call of the plotting library is made, so no image
  is written: the calls are the construction of the step and, when that returned, its
  \<^verbatim>\<open>run\<close>; and the world the function leaves is the one that \<^verbatim>\<open>run\<close> left (the one the
  construction left, when it raised).
\<close>

theorem no_plot_calls:
  fixes lib :: "('w, 'e, 'c) library"
  shows "list_all (\<lambda>c. \<not> is_plt c) (calls (trace_of (extract_spectrum lib s2dfile parfile False) w)) \<and>
    (case Extract1dStep_init lib w of
       (Inl e, w1) \<Rightarrow>
         calls (trace_of (extract_spectrum lib s2dfile parfile False) w) = [New_Extract1dStep] \<and>
         world_of (extract_spectrum lib s2dfile parfile False) w = w1
     | (Inr x1d0, w1) \<Rightarrow>
         calls (trace_of (extract_spectrum lib s2dfile parfile False) w) =
           [New_Extract1dStep, Run (x1d_settings parfile x1d0) s2dfile] \<and>
         world_of (extract_spectrum lib s2dfile parfile False) w =
           snd (Extract1dStep_run lib (x1d_settings parfile x1d0) s2dfile w1))"
proof -
  obtain r0 w1 where init: "Extract1dStep_init lib w = (r0, w1)"
    by (cases "Extract1dStep_init lib w")
  show ?thesis
  proof (cases r0)
    case (Inl e)
    with init have i: "Extract1dStep_init lib w = (Inl e, w1)" by simp
    from after_init_raises[OF i, of s2dfile parfile False] show ?thesis
      by (simp add: trace_of_def world_of_def calls_def i)
  next
    case (Inr x1d0)
    with init have i: "Extract1dStep_init lib w = (Inr x1d0, w1)" by simp
    let ?x = "x1d_settings parfile x1d0"
    obtain r w2 where run: "Extract1dStep_run lib ?x s2dfile w1 = (r, w2)"
      by (cases "Extract1dStep_run lib ?x s2dfile w1")
    show ?thesis
    proof (cases r)
      case (Inl e)
      with run have rr: "Extract1dStep_run lib ?x s2dfile w1 = (Inl e, w2)" by simp
      from after_init_run_raises[OF i rr, of False] show ?thesis
        by (simp add: trace_of_def world_of_def calls_def i rr)
    next
      case (Inr sp3)
      with run have rr: "Extract1dStep_run lib ?x s2dfile w1 = (Inr sp3, w2)" by simp
      from after_init_run[OF i rr, of False] show ?thesis
        by (simp add: trace_of_def world_of_def calls_def i rr ret_def)
    qed
  qed
qed

theorem no_plot_calls_witness:
  "list_all (\<lambda>c. \<not> is_plt c)
     (calls (trace_of (extract_spectrum (demo_lib ''obs_extract1dstep.fits'')
                ''in_s2d.fits'' ''par.json'' False) [])) \<and>
   calls (trace_of (extract_spectrum (demo_lib ''obs_extract1dstep.fits'')
                ''in_s2d.fits'' ''par.json'' False) []) =
     [New_Extract1dStep, Run (x1d_settings ''par.json'' demo_defaults) ''in_s2d.fits''] \<and>
   world_of (extract_spectrum (demo_lib ''obs_extract1dstep.fits'')
                ''in_s2d.fits'' ''par.json'' False) [] = [''./obs_extract1dstep.fits'']"
  using no_plot_calls[of "demo_lib ''obs_extract1dstep.fits''" "''in_s2d.fits''" "''par.json''" "[]"]
  by (simp add: demo_init demo_run)

subsection \<open>The plot\<close>

text \<open>
  Claim C2.  With the plot flag true, when the step returns a product whose first spectrum
  has the columns \<^verbatim>\<open>WAVELENGTH\<close> and \<^verbatim>\<open>FLUX\<close> and the figure is made, the fourth call the
  libraries receive is \<^verbatim>\<open>plt.plot\<close> with the wavelength column as its first argument (the
  x-axis) and the flux column as its second (the y-axis), both as they are in the table of
  the first spectrum; and the plotting library receives no other call of \<^verbatim>\<open>plt.plot\<close>.
\<close>

theorem plot_columns:
  fixes lib :: "('w, 'e, 'c) library"
  assumes init: "Extract1dStep_init lib w = (Inr x1d0, w1)"
    and run: "Extract1dStep_run lib (x1d_settings parfile x1d0) s2dfile w1 = (Inr sp3, w2)"
    and fig: "plt_figure lib [10, 6] w2 = (Inr u, w3)"
    and sp: "spec sp3 = s0 # rest"
    and wl: "spec_table s0 ''WAVELENGTH'' = Some wavelength"
    and fl: "spec_table s0 ''FLUX'' = Some flux"
  shows "take 4 (calls (received (extract_spectrum (recording lib) s2dfile parfile True) w)) =
       [New_Extract1dStep, Run (x1d_settings parfile x1d0) s2dfile, Figure [10, 6],
        Plot wavelength flux] \<and>
     filter is_Plot (calls (received (extract_spectrum (recording lib) s2dfile parfile True) w)) =
       [Plot wavelength flux]"
  unfolding received_trace by (rule trace_plot_columns[OF assms])

theorem plot_columns_witness:
  "take 4 (calls (received (extract_spectrum (recording (demo_lib ''obs_extract1dstep.fits''))
      ''in_s2d.fits'' ''par.json'' True) [])) =
     [New_Extract1dStep, Run (x1d_settings ''par.json'' demo_defaults) ''in_s2d.fits'',
      Figure [10, 6], Plot [5, 6] [1, 2]] \<and>
   filter is_Plot (calls (received (extract_spectrum (recording (demo_lib ''obs_extract1dstep.fits''))
      ''in_s2d.fits'' ''par.json'' True) [])) = [Plot [5, 6] [1, 2]]"
proof -
  let ?s0 = "\<lparr>spec_table = [''WAVELENGTH'' \<mapsto> [5, 6], ''FLUX'' \<mapsto> [1, 2::nat]]\<rparr>"
  have "spec (demo_product ''obs_extract1dstep.fits'') = ?s0 # []"
    and "spec_table ?s0 ''WAVELENGTH'' = Some [5, 6]"
    and "spec_table ?s0 ''FLUX'' = Some [1, 2]"
    by (simp_all add: demo_product_def)
  from plot_columns[OF demo_init demo_run demo_plt(1) this] show ?thesis .
qed

subsection \<open>The name of the image file\<close>

text \<open>
  Claim C3.  With the plot flag true, once the step has returned its product, every
  \<^verbatim>\<open>plt.savefig\<close> that the plotting library receives is on the product's \<^verbatim>\<open>meta.filename\<close>
  with \<^verbatim>\<open>_extract1dstep.fits\<close> replaced by \<^verbatim>\<open>.png\<close>, and when the invocation returns, that
  call is the last one the libraries received.  The name is the file name with every piece
  between two occurrences of \<^verbatim>\<open>_extract1dstep.fits\<close> kept and \<^verbatim>\<open>.png\<close> in the place of each
  occurrence.
\<close>

theorem plot_file_name:
  fixes lib :: "('w, 'e, 'c) library"
  assumes "Extract1dStep_init lib w = (Inr x1d0, w1)"
    and "Extract1dStep_run lib (x1d_settings parfile x1d0) s2dfile w1 = (Inr sp3, w2)"
  shows "(\<forall>f. Savefig f \<in> set (calls (received
              (extract_spectrum (recording lib) s2dfile parfile True) w)) \<longrightarrow>
            f = replace (meta_filename sp3) ''_extract1dstep.fits'' ''.png'') \<and>
         (result_of (extract_spectrum lib s2dfile parfile True) w = Inr () \<longrightarrow>
            last (received (extract_spectrum (recording lib) s2dfile parfile True) w) =
              (Savefig (replace (meta_filename sp3) ''_extract1dstep.fits'' ''.png''), None)) \<and>
         (\<forall>ps. pieces ''_extract1dstep.fits'' ps \<and>
               meta_filename sp3 = join ''_extract1dstep.fits'' ps \<longrightarrow>
            replace (meta_filename sp3) ''_extract1dstep.fits'' ''.png'' = join ''.png'' ps)"
proof -
  have "replace (meta_filename sp3) ''_extract1dstep.fits'' ''.png'' = join ''.png'' ps"
    if "pieces ''_extract1dstep.fits'' ps" and "meta_filename sp3 = join ''_extract1dstep.fits'' ps"
    for ps
    using replace_pieces[OF _ that(1), of "''.png''"] that(2) by simp
  with savefig_call[OF assms, of True] show ?thesis
    unfolding received_trace by simp
qed

theorem plot_file_name_witness:
  "Savefig ''obs.png'' \<in> set (calls (received (extract_spectrum
       (recording (demo_lib ''obs_extract1dstep.fits'')) ''in_s2d.fits'' ''par.json'' True) [])) \<and>
   replace (meta_filename (demo_product ''obs_extract1dstep.fits''))
       ''_extract1dstep.fits'' ''.png'' = ''obs.png'' \<and>
   result_of (extract_spectrum (demo_lib ''obs_extract1dstep.fits'')
       ''in_s2d.fits'' ''par.json'' True) [] = Inr () \<and>
   last (received (extract_spectrum (recording (demo_lib ''obs_extract1dstep.fits''))
       ''in_s2d.fits'' ''par.json'' True) []) = (Savefig ''obs.png'', None) \<and>
   pieces ''_extract1dstep.fits'' [''obs'', []] \<and>
   meta_filename (demo_product ''obs_extract1dstep.fits'') =
     join ''_extract1dstep.fits'' [''obs'', []] \<and>
   join ''.png'' [''obs'', []] = ''obs.png''"
proof -
  have m: "Savefig ''obs.png'' \<in> set (calls (received (extract_spectrum
      (recording (demo_lib ''obs_extract1dstep.fits'')) ''in_s2d.fits'' ''par.json'' True) []))"
    and r: "result_of (extract_spectrum (demo_lib ''obs_extract1dstep.fits'')
       ''in_s2d.fits'' ''par.json'' True) [] = Inr ()"
    by (simp_all add: received_trace trace_of_def result_of_def calls_def demo_plot)
  have j: "meta_filename (demo_product ''obs_extract1dstep.fits'') =
     join ''_extract1dstep.fits'' [''obs'', []]"
    by (simp add: demo_product_def)
  from plot_file_name[where parfile = "''par.json''" and s2dfile = "''in_s2d.fits''"
      and lib = "demo_lib ''obs_extract1dstep.fits''" and w = "[]", OF demo_init demo_run]
    m r demo_pieces j
  show ?thesis by auto
qed

text \<open>
  Claim C10.  With the plot flag true, when the product's \<^verbatim>\<open>meta.filename\<close> does not
  contain \<^verbatim>\<open>_extract1dstep.fits\<close> the replacement changes nothing: every \<^verbatim>\<open>plt.savefig\<close>
  the plotting library receives is on the product's own file name, and it is the last call
  received when the invocation returns.  On a disk where the step saves its product under
  that name in \<^verbatim>\<open>./\<close> and \<^verbatim>\<open>savefig\<close> writes to the path it is given, the image takes the
  place of the product: without the plot flag the file is the product, with it the same
  file is the image, and there is no other file.
\<close>

theorem plot_overwrites_name:
  fixes lib :: "('w, 'e, 'c) library"
  assumes "Extract1dStep_init lib w = (Inr x1d0, w1)"
    and "Extract1dStep_run lib (x1d_settings parfile x1d0) s2dfile w1 = (Inr sp3, w2)"
    and "\<not> sublist ''_extract1dstep.fits'' (meta_filename sp3)"
  shows "replace (meta_filename sp3) ''_extract1dstep.fits'' ''.png'' = meta_filename sp3 \<and>
         (\<forall>f. Savefig f \<in> set (calls (received
              (extract_spectrum (recording lib) s2dfile parfile True) w)) \<longrightarrow>
            f = meta_filename sp3) \<and>
         (result_of (extract_spectrum lib s2dfile parfile True) w = Inr () \<longrightarrow>
            last (received (extract_spectrum (recording lib) s2dfile parfile True) w) =
              (Savefig (meta_filename sp3), None)) \<and>
         world_of (extract_spectrum (disk_lib (meta_filename sp3)) s2dfile parfile False) Map.empty =
           [in_cwd (meta_filename sp3) \<mapsto> Spectrum_product] \<and>
         world_of (extract_spectrum (disk_lib (meta_filename sp3)) s2dfile parfile True) Map.empty =
           [in_cwd (meta_filename sp3) \<mapsto> Plot_image]"
  using savefig_call[OF assms(1,2), of True] replace_absent[OF assms(3), of "''.png''"]
  unfolding received_trace by (simp add: disk_noplot disk_plot)

theorem plot_overwrites_name_witness:
  "\<not> sublist ''_extract1dstep.fits'' (meta_filename (demo_product ''obs_x1d.fits'')) \<and>
   replace ''obs_x1d.fits'' ''_extract1dstep.fits'' ''.png'' = ''obs_x1d.fits'' \<and>
   Savefig ''obs_x1d.fits'' \<in> set (calls (received (extract_spectrum
       (recording (demo_lib ''obs_x1d.fits'')) ''in_s2d.fits'' ''par.json'' True) [])) \<and>
   result_of (extract_spectrum (demo_lib ''obs_x1d.fits'')
       ''in_s2d.fits'' ''par.json'' True) [] = Inr () \<and>
   last (received (extract_spectrum (recording (demo_lib ''obs_x1d.fits''))
       ''in_s2d.fits'' ''par.json'' True) []) = (Savefig ''obs_x1d.fits'', None) \<and>
   world_of (extract_spectrum (disk_lib ''obs_x1d.fits'') ''in_s2d.fits'' ''par.json'' False)
       Map.empty = [''obs_x1d.fits'' \<mapsto> Spectrum_product] \<and>
   world_of (extract_spectrum (disk_lib ''obs_x1d.fits'') ''in_s2d.fits'' ''par.json'' True)
       Map.empty = [''obs_x1d.fits'' \<mapsto> Plot_image]"
proof -
  have a: "\<not> sublist ''_extract1dstep.fits'' (meta_filename (demo_product ''obs_x1d.fits''))"
    using demo_absent by (simp add: demo_product_def)
  have r: "result_of (extract_spectrum (demo_lib ''obs_x1d.fits'')
       ''in_s2d.fits'' ''par.json'' True) [] = Inr ()"
    by (simp add: result_of_def demo_plot_any)
  have m: "Savefig ''obs_x1d.fits'' \<in> set (calls (received (extract_spectrum
       (recording (demo_lib ''obs_x1d.fits'')) ''in_s2d.fits'' ''par.json'' True) []))"
    using demo_absent
    by (simp add: received_trace trace_of_def calls_def demo_plot_any replace_absent)
  from plot_overwrites_name[where parfile = "''par.json''" and s2dfile = "''in_s2d.fits''"
      and lib = "demo_lib ''obs_x1d.fits''" and w = "[]", OF demo_init demo_run a] a r m
  show ?thesis
    by (simp add: demo_product_def)
qed

section \<open>Properties of the command-line driver\<close>

subsection \<open>The actions an argument string selects\<close>

lemma parser_actions: "parser = [help_action, s2dfile_action, parfile_action, save_plot_action]"
  by (simp add: parser_def s2dfile_action_def parfile_action_def save_plot_action_def)

lemma osa_parser:
  "option_string_actions parser =
     [(''-h'', help_action), (''--help'', help_action), (''--s2dfile'', s2dfile_action),
      (''--parfile'', parfile_action), (''--save_plot'', save_plot_action)]"
  by (simp add: option_string_actions_def parser_actions)
     (simp add: help_action_def s2dfile_action_def parfile_action_def save_plot_action_def)

lemma actions_distinct:
  "help_action \<noteq> s2dfile_action" "help_action \<noteq> parfile_action" "help_action \<noteq> save_plot_action"
  "s2dfile_action \<noteq> parfile_action" "s2dfile_action \<noteq> save_plot_action"
  "parfile_action \<noteq> save_plot_action"
  by (simp_all add: help_action_def s2dfile_action_def parfile_action_def save_plot_action_def)

lemma defaults_parser:
  "defaults parser = [''s2dfile'' \<mapsto> NoneVal, ''parfile'' \<mapsto> Str ''miri_lrs_demo_extract1d.json'',
                      ''save_plot'' \<mapsto> Bool False]"
  by (simp add: defaults_def parser_def help_action_def)

lemma osa_mem: "(s, a) \<in> set (option_string_actions P) \<Longrightarrow> a \<in> set P"
  by (auto simp: option_string_actions_def)

lemma get_option_tuples_mem:
  "(Some a, os, sep, e) \<in> set (get_option_tuples P s) \<Longrightarrow> (os, a) \<in> set (option_string_actions P)"
  by (auto simp: get_option_tuples_def split: if_splits prod.splits)

lemma parse_optional_Some:
  assumes "parse_optional P s = Inr (Some (Some a, os, sep, e))"
  shows "s \<noteq> [] \<and> hd s = CHR ''-'' \<and>
     ((os = s \<and> map_of (option_string_actions P) s = Some a) \<or>
      (os = fst (partition_eq s) \<and> CHR ''='' \<in> set s \<and>
         map_of (option_string_actions P) os = Some a) \<or>
      (2 \<le> length s \<and> get_option_tuples P s = [(Some a, os, sep, e)]))"
proof -
  have two: "2 \<le> length s" if "s \<noteq> []" "length s \<noteq> 1"
    using that by (cases s) (auto simp: Suc_le_eq)
  from assms show ?thesis
    unfolding parse_optional_def Let_def
    by (auto split: if_splits option.splits prod.splits
             simp: length_Suc_conv partition_eq_def intro!: two)
qed

lemma parse_optional_mem:
  assumes "parse_optional P s = Inr (Some (Some a, os, sep, e))"
  shows "(os, a) \<in> set (option_string_actions P)"
proof -
  from parse_optional_Some[OF assms] consider
      "map_of (option_string_actions P) os = Some a"
    | "get_option_tuples P s = [(Some a, os, sep, e)]" by auto
  then show ?thesis
  proof cases
    case 1
    then show ?thesis by (rule map_of_SomeD)
  next
    case 2
    then have "(Some a, os, sep, e) \<in> set (get_option_tuples P s)" by simp
    then show ?thesis by (rule get_option_tuples_mem)
  qed
qed


lemma takeWhile_prefix: "prefix (takeWhile Q xs) xs"
  by (metis prefixI takeWhile_dropWhile_id)

lemma long_tuples:
  assumes s: "s = CHR ''-'' # CHR ''-'' # rest"
    and g: "get_option_tuples parser s = [(Some a, os, sep, e)]"
  shows "(a = parfile_action \<longrightarrow> prefix ''--p'' s) \<and>
         (a = save_plot_action \<longrightarrow> prefix ''--sa'' s) \<and>
         (a = s2dfile_action \<longrightarrow> prefix ''--s2'' s)"
proof -
  let ?tw = "takeWhile (\<lambda>c. c \<noteq> CHR ''='') rest"
  have pre: "prefix ?tw rest" by (rule takeWhile_prefix)
  have f: "filter (\<lambda>(x, b). prefix (CHR ''-'' # CHR ''-'' # ?tw) x) (option_string_actions parser)
          = [(os, a)]"
    using g unfolding get_option_tuples_def s partition_eq_def
    by (auto simp: map_eq_Cons_conv split: prod.splits if_splits)
  show ?thesis
  proof (cases ?tw)
    case Nil
    with f show ?thesis by (simp add: osa_parser)
  next
    case (Cons c r)
    then obtain rest' where rest: "rest = c # rest'" and r: "prefix r rest'"
      using pre by (cases rest) auto
    show ?thesis
    proof (cases r)
      case Nil
      with f Cons show ?thesis
        by (auto simp: osa_parser s rest actions_distinct actions_distinct[symmetric] split: if_splits)
    next
      case (Cons c2 r2)
      with r obtain rest2 where rest': "rest' = c2 # rest2"
        by (cases rest') auto
      from f \<open>?tw = c # r\<close> Cons show ?thesis
        by (auto simp: osa_parser s rest rest' actions_distinct actions_distinct[symmetric] split: if_splits)
    qed
  qed
qed


lemma short_tuples:
  assumes s: "s = CHR ''-'' # c # rest" and c: "c \<noteq> CHR ''-''"
    and g: "get_option_tuples parser s = [(Some a, os, sep, e)]"
  shows "a = help_action"
proof -
  from g have "(Some a, os, sep, e) \<in> set (get_option_tuples parser s)" by simp
  then show ?thesis
    unfolding get_option_tuples_def s using c
    by (auto simp: osa_parser split: if_splits)
qed

lemma map_of_osa_parser:
  assumes "map_of (option_string_actions parser) k = Some a"
  shows "(a = parfile_action \<longrightarrow> k = ''--parfile'') \<and>
         (a = save_plot_action \<longrightarrow> k = ''--save_plot'') \<and>
         (a = s2dfile_action \<longrightarrow> k = ''--s2dfile'')"
  using map_of_SomeD[OF assms]
  by (auto simp: osa_parser actions_distinct actions_distinct[symmetric])

lemma selects:
  assumes "parse_optional parser s = Inr (Some (Some a, os, sep, e))"
  shows "(a = parfile_action \<longrightarrow> prefix ''--p'' s) \<and>
         (a = save_plot_action \<longrightarrow> prefix ''--sa'' s) \<and>
         (a = s2dfile_action \<longrightarrow> prefix ''--s2'' s)"
proof -
  from parse_optional_Some[OF assms] have ne: "s \<noteq> []" and h: "hd s = CHR ''-''" by auto
  from parse_optional_Some[OF assms] consider
      (exact) "os = s" "map_of (option_string_actions parser) s = Some a"
    | (eq) "os = fst (partition_eq s)" "map_of (option_string_actions parser) os = Some a"
    | (abbrev) "2 \<le> length s" "get_option_tuples parser s = [(Some a, os, sep, e)]"
    by auto
  then show ?thesis
  proof cases
    case exact
    from map_of_osa_parser[OF exact(2)] show ?thesis by auto
  next
    case eq
    have "prefix os s" unfolding eq(1) partition_eq_def by (simp add: takeWhile_prefix)
    with map_of_osa_parser[OF eq(2)] show ?thesis
      by (auto elim!: prefixE)
  next
    case abbrev
    from abbrev(1) ne h obtain c rest where s: "s = CHR ''-'' # c # rest"
      by (cases s; cases "tl s") auto
    show ?thesis
    proof (cases "c = CHR ''-''")
      case True
      with s abbrev(2) show ?thesis by (intro long_tuples) auto
    next
      case False
      from short_tuples[OF s False abbrev(2)] show ?thesis
        by (simp add: actions_distinct)
    qed
  qed
qed

lemma classify_Opt:
  "classify P argv = Inr ts \<Longrightarrow> Opt t s \<in> set ts \<Longrightarrow> s \<in> set argv \<and> parse_optional P s = Inr (Some t)"
proof (induction argv arbitrary: ts)
  case Nil
  then show ?case by simp
next
  case (Cons x xs)
  show ?case
  proof (cases "x = ''--''")
    case True
    with Cons.prems show ?thesis by auto
  next
    case False
    with Cons.prems obtain t0 ts0 where po: "parse_optional P x = Inr t0"
      and cl: "classify P xs = Inr ts0"
      and ts: "ts = (case t0 of None \<Rightarrow> Arg x | Some ot \<Rightarrow> Opt ot x) # ts0"
      by (auto split: sum.splits)
    from Cons.prems(2) ts consider "t0 = Some t" "s = x" | "Opt t s \<in> set ts0"
      by (auto split: option.splits)
    then show ?thesis
    proof cases
      case 1
      with po show ?thesis by simp
    next
      case 2
      with Cons.IH[OF cl] show ?thesis by simp
    qed
  qed
qed

lemma consume_optional_actions_gen:
  "(\<And>x y a'. map_of (option_string_actions P) [x, y] = Some a' \<Longrightarrow> a' = h) \<Longrightarrow>
   consume_optional P a os sep e following acc = Inr (tuples, unk, n) \<Longrightarrow>
   (b, args) \<in> set tuples \<Longrightarrow> (b, args) \<in> set acc \<or> b = a \<or> b = h"
proof (induction P a os sep e following acc rule: consume_optional.induct)
  case (1 P a option_string sep following acc)
  from "1.prems"(2,3) show ?case by (auto split: sum.splits)
next
  case (2 P a option_string sep explicit_arg following acc)
  note short = "2.prems"(1)
  note res = "2.prems"(2)
  note mem = "2.prems"(3)
  show ?case
  proof (cases "kind a \<noteq> Store \<and> option_string ! 1 \<noteq> CHR ''-'' \<and> explicit_arg \<noteq> []")
    case False
    with res mem show ?thesis by (auto split: if_splits)
  next
    case c: True
    with res have nsep: "\<not> (sep \<or> hd explicit_arg = CHR ''-'')"
      by (auto split: if_splits)
    show ?thesis
    proof (cases "map_of (option_string_actions P) [hd option_string, hd explicit_arg]")
      case None
      with c nsep res mem show ?thesis by auto
    next
      case (Some a')
      from short[OF Some] have a': "a' = h" .
      consider "tl explicit_arg = []"
        | "tl explicit_arg \<noteq> []" "hd (tl explicit_arg) = CHR ''=''"
        | "tl explicit_arg \<noteq> []" "hd (tl explicit_arg) \<noteq> CHR ''=''" by blast
      then show ?thesis
      proof cases
        case 1
        with res c nsep Some have
          "consume_optional P a' [hd option_string, hd explicit_arg] False None following
             (acc @ [(a, [])]) = Inr (tuples, unk, n)" by simp
        from "2.IH"(1)[OF c nsep Some 1 short this mem] a' show ?thesis by auto
      next
        case 2
        with res c nsep Some have
          "consume_optional P a' [hd option_string, hd explicit_arg] True
             (Some (tl (tl explicit_arg))) following (acc @ [(a, [])]) = Inr (tuples, unk, n)"
          by simp
        from "2.IH"(2)[OF c nsep Some 2 short this mem] a' show ?thesis by auto
      next
        case 3
        with res c nsep Some have
          "consume_optional P a' [hd option_string, hd explicit_arg] False
             (Some (tl explicit_arg)) following (acc @ [(a, [])]) = Inr (tuples, unk, n)"
          by simp
        from "2.IH"(3)[OF c nsep Some 3 short this mem] a' show ?thesis by auto
      qed
    qed
  qed
qed

lemma consume_optional_actions:
  assumes "consume_optional parser a os sep e following [] = Inr (tuples, unk, n)"
    and "(b, args) \<in> set tuples"
  shows "b = a \<or> b = help_action"
proof -
  have "a' = help_action" if "map_of (option_string_actions parser) [x, y] = Some a'" for x y a'
    using map_of_SomeD[OF that] by (auto simp: osa_parser)
  from consume_optional_actions_gen[OF this assms] show ?thesis by simp
qed

subsection \<open>What the parsing preserves\<close>

lemma take_actions_preserves:
  assumes step: "\<forall>b args st st2. (b, args) \<in> set tuples \<and> Q st \<and> take_action b args st = Inr st2 \<longrightarrow> Q st2"
  shows "take_actions tuples st = Inr st' \<Longrightarrow> Q st \<Longrightarrow> Q st'"
  using step
proof (induction tuples arbitrary: st)
  case Nil
  then show ?case by simp
next
  case (Cons t tuples)
  obtain b args where t: "t = (b, args)" by (cases t)
  with Cons.prems(1) obtain st1 where 1: "take_action b args st = Inr st1"
    and 2: "take_actions tuples st1 = Inr st'"
    by (auto split: sum.splits)
  from Cons.prems(3) t Cons.prems(2) 1 have q1: "Q st1" by auto
  from Cons.prems(3) have "\<forall>b args st st2. (b, args) \<in> set tuples \<and> Q st \<and>
      take_action b args st = Inr st2 \<longrightarrow> Q st2" by auto
  with Cons.IH[OF 2 q1] show ?case by blast
qed

lemma consume_preserves:
  assumes ext: "\<forall>st x. Q st \<longrightarrow> Q (st\<lparr>extras := x\<rparr>)"
  shows "consume P ts st = Inr st' \<Longrightarrow> Q st \<Longrightarrow>
   (\<forall>a os sep e s following tuples unk n b args st st2.
       Opt (Some a, os, sep, e) s \<in> set ts \<and>
       consume_optional P a os sep e following [] = Inr (tuples, unk, n) \<and>
       (b, args) \<in> set tuples \<and> Q st \<and> take_action b args st = Inr st2 \<longrightarrow> Q st2) \<Longrightarrow>
   Q st'"
proof (induction P ts st rule: consume.induct)
  case (1 P st)
  then show ?case by simp
next
  case (2 P s ts st)
  from "2.prems"(1) have c: "consume P ts (st\<lparr>extras := extras st @ [s]\<rparr>) = Inr st'" by simp
  from ext "2.prems"(2) have q: "Q (st\<lparr>extras := extras st @ [s]\<rparr>)" by blast
  from "2.prems"(3) have "\<forall>a os sep e s following tuples unk n b args st st2.
       Opt (Some a, os, sep, e) s \<in> set ts \<and>
       consume_optional P a os sep e following [] = Inr (tuples, unk, n) \<and>
       (b, args) \<in> set tuples \<and> Q st \<and> take_action b args st = Inr st2 \<longrightarrow> Q st2"
    by (simp del: consume_optional.simps)
  with "2.IH"[OF c q] show ?case by blast
next
  case (3 P ts st)
  from "3.prems"(1) have c: "consume P ts (st\<lparr>extras := extras st @ [''--'']\<rparr>) = Inr st'" by simp
  from ext "3.prems"(2) have q: "Q (st\<lparr>extras := extras st @ [''--'']\<rparr>)" by blast
  from "3.prems"(3) have "\<forall>a os sep e s following tuples unk n b args st st2.
       Opt (Some a, os, sep, e) s \<in> set ts \<and>
       consume_optional P a os sep e following [] = Inr (tuples, unk, n) \<and>
       (b, args) \<in> set tuples \<and> Q st \<and> take_action b args st = Inr st2 \<longrightarrow> Q st2"
    by (simp del: consume_optional.simps)
  with "3.IH"[OF c q] show ?case by blast
next
  case (4 P option_string sep explicit_arg s ts st)
  from "4.prems"(1) have c: "consume P ts (st\<lparr>extras := extras st @ [s]\<rparr>) = Inr st'" by simp
  from ext "4.prems"(2) have q: "Q (st\<lparr>extras := extras st @ [s]\<rparr>)" by blast
  from "4.prems"(3) have "\<forall>a os sep e s following tuples unk n b args st st2.
       Opt (Some a, os, sep, e) s \<in> set ts \<and>
       consume_optional P a os sep e following [] = Inr (tuples, unk, n) \<and>
       (b, args) \<in> set tuples \<and> Q st \<and> take_action b args st = Inr st2 \<longrightarrow> Q st2"
    by (simp del: consume_optional.simps)
  with "4.IH"[OF c q] show ?case by blast
next
  case (5 P a option_string sep explicit_arg s ts st)
  from "5.prems"(1) obtain tuples unk n st1 where
      co: "consume_optional P a option_string sep explicit_arg ts [] = Inr (tuples, unk, n)"
    and ta: "take_actions tuples (st\<lparr>extras := extras st @ unk\<rparr>) = Inr st1"
    and c: "consume P (drop n ts) st1 = Inr st'"
    by (simp del: consume_optional.simps split: sum.splits prod.splits)
  from ext "5.prems"(2) have q: "Q (st\<lparr>extras := extras st @ unk\<rparr>)" by blast
  have here: "Opt (Some a, option_string, sep, explicit_arg) s
      \<in> set (Opt (Some a, option_string, sep, explicit_arg) s # ts)" by simp
  from "5.prems"(3) here co have
    "\<forall>b args st st2. (b, args) \<in> set tuples \<and> Q st \<and> take_action b args st = Inr st2 \<longrightarrow> Q st2"
    by blast
  from take_actions_preserves[OF this ta q] have q1: "Q st1" .
  have sub: "set (drop n ts) \<subseteq> set (Opt (Some a, option_string, sep, explicit_arg) s # ts)"
    by (auto dest: in_set_dropD)
  from "5.prems"(3) sub have "\<forall>a os sep e s following tuples unk m b args st st2.
       Opt (Some a, os, sep, e) s \<in> set (drop n ts) \<and>
       consume_optional P a os sep e following [] = Inr (tuples, unk, m) \<and>
       (b, args) \<in> set tuples \<and> Q st \<and> take_action b args st = Inr st2 \<longrightarrow> Q st2"
    by (meson subsetD)
  with "5.IH"[OF co refl refl ta c q1] show ?case by blast
qed

lemma take_action_help: "take_action help_action args st \<noteq> Inr st2"
  by (simp add: take_action_def help_action_def)

lemma consume_parser_preserves:
  assumes c: "consume parser ts st = Inr st'" and q: "Q st"
    and ext: "\<forall>st x. Q st \<longrightarrow> Q (st\<lparr>extras := x\<rparr>)"
    and act: "\<forall>a os sep e s args st st2. Opt (Some a, os, sep, e) s \<in> set ts \<and> Q st \<and>
                take_action a args st = Inr st2 \<longrightarrow> Q st2"
  shows "Q st'"
proof (rule consume_preserves[where Q = Q, OF ext c q], intro allI impI, elim conjE)
  fix a os sep e s following tuples unk n b args st st2
  assume o: "Opt (Some a, os, sep, e) s \<in> set ts"
    and co: "consume_optional parser a os sep e following [] = Inr (tuples, unk, n)"
    and m: "(b, args) \<in> set tuples" and qs: "Q st" and t: "take_action b args st = Inr st2"
  from consume_optional_actions[OF co m] t have "b = a" by (auto simp: take_action_help)
  with act o qs t show "Q st2" by blast
qed

lemma take_action_s2dfile:
  assumes "take_action s2dfile_action args st = Inr st2"
  shows "\<exists>v. args = [v] \<and> st2 = st\<lparr>seen_actions := s2dfile_action # seen_actions st,
                                   namespace := (namespace st)(''s2dfile'' \<mapsto> Str v)\<rparr>"
proof -
  have k: "kind s2dfile_action = Store" and d: "dest s2dfile_action = Some ''s2dfile''"
    by (simp_all add: s2dfile_action_def)
  from assms show ?thesis
    unfolding take_action_def Let_def k d
    by (cases args; cases "tl args") auto
qed

lemma take_action_parfile:
  assumes "take_action parfile_action args st = Inr st2"
  shows "\<exists>v. args = [v] \<and> st2 = st\<lparr>seen_actions := parfile_action # seen_actions st,
                                   namespace := (namespace st)(''parfile'' \<mapsto> Str v)\<rparr>"
proof -
  have k: "kind parfile_action = Store" and d: "dest parfile_action = Some ''parfile''"
    by (simp_all add: parfile_action_def)
  from assms show ?thesis
    unfolding take_action_def Let_def k d
    by (cases args; cases "tl args") auto
qed

lemma take_action_save_plot:
  assumes "take_action save_plot_action args st = Inr st2"
  shows "st2 = st\<lparr>seen_actions := save_plot_action # seen_actions st,
                   namespace := (namespace st)(''save_plot'' \<mapsto> Bool True)\<rparr>"
proof -
  have k: "kind save_plot_action = StoreTrue" and d: "dest save_plot_action = Some ''save_plot''"
    by (simp_all add: save_plot_action_def)
  from assms show ?thesis
    unfolding take_action_def Let_def k d by auto
qed

lemma take_action_ns_inv:
  assumes "a \<in> set parser" and inv: "ns_inv st" and t: "take_action a args st = Inr st2"
  shows "ns_inv st2"
proof -
  from assms(1) consider "a = help_action" | "a = s2dfile_action" | "a = parfile_action"
    | "a = save_plot_action" by (auto simp: parser_actions)
  then show ?thesis
  proof cases
    case 1
    with t show ?thesis by (simp add: take_action_help)
  next
    case 2
    with take_action_s2dfile t obtain v where
      "st2 = st\<lparr>seen_actions := s2dfile_action # seen_actions st,
                   namespace := (namespace st)(''s2dfile'' \<mapsto> Str v)\<rparr>" by blast
    with inv show ?thesis by (simp add: ns_inv_def)
  next
    case 3
    with take_action_parfile t obtain v where
      "st2 = st\<lparr>seen_actions := parfile_action # seen_actions st,
                   namespace := (namespace st)(''parfile'' \<mapsto> Str v)\<rparr>" by blast
    with inv show ?thesis by (simp add: ns_inv_def actions_distinct insert_commute)
  next
    case 4
    with take_action_save_plot t have
      "st2 = st\<lparr>seen_actions := save_plot_action # seen_actions st,
                   namespace := (namespace st)(''save_plot'' \<mapsto> Bool True)\<rparr>" by blast
    with inv show ?thesis by (auto simp: ns_inv_def actions_distinct)
  qed
qed

lemma parse_args_Inr:
  assumes "parse_args parser argv = Inr args"
  obtains toks st where "classify parser argv = Inr toks"
    and "consume parser toks \<lparr>namespace = defaults parser, seen_actions = [], extras = []\<rparr> = Inr st"
    and "s2dfile_action \<in> set (seen_actions st)" and "extras st = []" and "args = namespace st"
proof -
  from assms obtain toks where cl: "classify parser argv = Inr toks"
    unfolding parse_args_def parse_known_args_def
    by (cases "classify parser argv") auto
  with assms obtain st where
    co: "consume parser toks \<lparr>namespace = defaults parser, seen_actions = [], extras = []\<rparr> = Inr st"
    unfolding parse_args_def parse_known_args_def
    by (cases "consume parser toks \<lparr>namespace = defaults parser, seen_actions = [], extras = []\<rparr>")
       auto
  from assms cl co have req: "filter (\<lambda>a. a \<notin> set (seen_actions st) \<and> required a) parser = []"
    and ex: "extras st = []" and ns: "args = namespace st"
    unfolding parse_args_def parse_known_args_def Let_def
    by (simp_all split: if_splits)
  have "required s2dfile_action" "s2dfile_action \<in> set parser"
    by (simp_all add: parser_actions) (simp add: s2dfile_action_def)
  with req have "s2dfile_action \<in> set (seen_actions st)"
    unfolding filter_empty_conv by blast
  from cl co this ex ns show ?thesis by (rule that)
qed

lemma take_action_seen:
  "take_action a args st = Inr st2 \<Longrightarrow> seen_actions st2 = a # seen_actions st"
  unfolding take_action_def Let_def
  by (cases "kind a"; cases "dest a"; cases args; cases "tl args") auto

lemma take_action_other:
  "take_action a args st = Inr st2 \<Longrightarrow> dest a \<noteq> Some k \<Longrightarrow> namespace st2 k = namespace st k"
  unfolding take_action_def Let_def
  by (cases "kind a"; cases "dest a"; cases args; cases "tl args") auto

lemma tok_action:
  assumes cl: "classify parser argv = Inr toks" and m: "Opt (Some a, os, sep, e) s \<in> set toks"
  shows "s \<in> set argv \<and> a \<in> set parser \<and>
         (a = parfile_action \<longrightarrow> prefix ''--p'' s) \<and>
         (a = save_plot_action \<longrightarrow> prefix ''--sa'' s) \<and>
         (a = s2dfile_action \<longrightarrow> prefix ''--s2'' s)"
proof -
  from classify_Opt[OF cl m] have s: "s \<in> set argv"
    and po: "parse_optional parser s = Inr (Some (Some a, os, sep, e))" by simp_all
  from parse_optional_mem[OF po] have "a \<in> set parser" by (rule osa_mem)
  with s selects[OF po] show ?thesis by simp
qed

lemma parse_args_namespace:
  assumes "parse_args parser argv = Inr args"
  shows "dom args = {''s2dfile'', ''parfile'', ''save_plot''} \<and>
     (\<exists>a b c. args ''s2dfile'' = Some (Str a) \<and> args ''parfile'' = Some (Str b) \<and>
        args ''save_plot'' = Some (Bool c))"
proof -
  from assms obtain toks st where cl: "classify parser argv = Inr toks"
    and co: "consume parser toks \<lparr>namespace = defaults parser, seen_actions = [], extras = []\<rparr> = Inr st"
    and seen: "s2dfile_action \<in> set (seen_actions st)" and ns: "args = namespace st"
    by (rule parse_args_Inr)
  have "ns_inv st"
  proof (rule consume_parser_preserves[where Q = ns_inv, OF co])
    show "ns_inv \<lparr>namespace = defaults parser, seen_actions = [], extras = []\<rparr>"
      by (auto simp: ns_inv_def defaults_parser)
    show "\<forall>st x. ns_inv st \<longrightarrow> ns_inv (st\<lparr>extras := x\<rparr>)"
      by (simp add: ns_inv_def)
    show "\<forall>a os sep e s args st st2. Opt (Some a, os, sep, e) s \<in> set toks \<and> ns_inv st \<and>
        take_action a args st = Inr st2 \<longrightarrow> ns_inv st2"
      using tok_action[OF cl] take_action_ns_inv by blast
  qed
  with seen ns show ?thesis by (auto simp: ns_inv_def)
qed

lemma parfile_default:
  assumes p: "parse_args parser argv = Inr args"
    and no: "list_all (\<lambda>s. \<not> prefix ''--p'' s) argv"
  shows "args ''parfile'' = Some (Str ''miri_lrs_demo_extract1d.json'')"
proof -
  let ?Q = "\<lambda>st. namespace st ''parfile'' = Some (Str ''miri_lrs_demo_extract1d.json'')"
  from p obtain toks st where cl: "classify parser argv = Inr toks"
    and co: "consume parser toks \<lparr>namespace = defaults parser, seen_actions = [], extras = []\<rparr> = Inr st"
    and ns: "args = namespace st"
    by (rule parse_args_Inr)
  have "?Q st"
  proof (rule consume_parser_preserves[where Q = ?Q, OF co])
    show "?Q \<lparr>namespace = defaults parser, seen_actions = [], extras = []\<rparr>"
      by (simp add: defaults_parser)
    show "\<forall>st x. ?Q st \<longrightarrow> ?Q (st\<lparr>extras := x\<rparr>)" by simp
    show "\<forall>a os sep e s args st st2. Opt (Some a, os, sep, e) s \<in> set toks \<and> ?Q st \<and>
        take_action a args st = Inr st2 \<longrightarrow> ?Q st2"
    proof (intro allI impI, elim conjE)
      fix a os sep e s args st st2
      assume m: "Opt (Some a, os, sep, e) s \<in> set toks" and q: "?Q st"
        and t: "take_action a args st = Inr st2"
      from tok_action[OF cl m] no have "a \<in> set parser" "a \<noteq> parfile_action"
        by (auto simp: list_all_iff)
      then have "dest a \<noteq> Some ''parfile''"
        by (auto simp: parser_actions help_action_def s2dfile_action_def save_plot_action_def)
      from take_action_other[OF t this] q show "?Q st2" by simp
    qed
  qed
  with ns show ?thesis by simp
qed

lemma save_plot_default:
  assumes p: "parse_args parser argv = Inr args"
    and no: "list_all (\<lambda>s. \<not> prefix ''--sa'' s) argv"
  shows "args ''save_plot'' = Some (Bool False)"
proof -
  let ?Q = "\<lambda>st. namespace st ''save_plot'' = Some (Bool False)"
  from p obtain toks st where cl: "classify parser argv = Inr toks"
    and co: "consume parser toks \<lparr>namespace = defaults parser, seen_actions = [], extras = []\<rparr> = Inr st"
    and ns: "args = namespace st"
    by (rule parse_args_Inr)
  have "?Q st"
  proof (rule consume_parser_preserves[where Q = ?Q, OF co])
    show "?Q \<lparr>namespace = defaults parser, seen_actions = [], extras = []\<rparr>"
      by (simp add: defaults_parser)
    show "\<forall>st x. ?Q st \<longrightarrow> ?Q (st\<lparr>extras := x\<rparr>)" by simp
    show "\<forall>a os sep e s args st st2. Opt (Some a, os, sep, e) s \<in> set toks \<and> ?Q st \<and>
        take_action a args st = Inr st2 \<longrightarrow> ?Q st2"
    proof (intro allI impI, elim conjE)
      fix a os sep e s args st st2
      assume m: "Opt (Some a, os, sep, e) s \<in> set toks" and q: "?Q st"
        and t: "take_action a args st = Inr st2"
      from tok_action[OF cl m] no have "a \<in> set parser" "a \<noteq> save_plot_action"
        by (auto simp: list_all_iff)
      then have "dest a \<noteq> Some ''save_plot''"
        by (auto simp: parser_actions help_action_def s2dfile_action_def parfile_action_def)
      from take_action_other[OF t this] q show "?Q st2" by simp
    qed
  qed
  with ns show ?thesis by simp
qed

lemma s2dfile_required:
  assumes no: "list_all (\<lambda>s. \<not> prefix ''--s2'' s) argv"
  shows "parse_args parser argv \<noteq> Inr args"
proof
  assume p: "parse_args parser argv = Inr args"
  let ?Q = "\<lambda>st. s2dfile_action \<notin> set (seen_actions st)"
  from p obtain toks st where cl: "classify parser argv = Inr toks"
    and co: "consume parser toks \<lparr>namespace = defaults parser, seen_actions = [], extras = []\<rparr> = Inr st"
    and seen: "s2dfile_action \<in> set (seen_actions st)"
    by (rule parse_args_Inr)
  have "?Q st"
  proof (rule consume_parser_preserves[where Q = ?Q, OF co])
    show "?Q \<lparr>namespace = defaults parser, seen_actions = [], extras = []\<rparr>" by simp
    show "\<forall>st x. ?Q st \<longrightarrow> ?Q (st\<lparr>extras := x\<rparr>)" by simp
    show "\<forall>a os sep e s args st st2. Opt (Some a, os, sep, e) s \<in> set toks \<and> ?Q st \<and>
        take_action a args st = Inr st2 \<longrightarrow> ?Q st2"
    proof (intro allI impI, elim conjE)
      fix a os sep e s args st st2
      assume m: "Opt (Some a, os, sep, e) s \<in> set toks" and q: "?Q st"
        and t: "take_action a args st = Inr st2"
      from tok_action[OF cl m] no have "a \<noteq> s2dfile_action"
        by (auto simp: list_all_iff)
      with take_action_seen[OF t] q show "?Q st2" by simp
    qed
  qed
  with seen show False by simp
qed

subsection \<open>The parser on the usual command lines\<close>

lemma then_do_ret: "then_do (ret a) f = f a"
  by (rule ext) (simp add: then_do_def ret_def)

lemma getattr_Some: "ns name = Some v \<Longrightarrow> getattr ns name = ret v"
  by (simp add: getattr_def)

lemma main_Inr:
  assumes "parse_args parser argv = Inr args"
    and "args ''s2dfile'' = Some (Str a)" and "args ''parfile'' = Some (Str b)"
    and "args ''save_plot'' = Some (Bool c)"
  shows "main lib argv = extract_spectrum lib a b c"
  by (simp add: main_def assms getattr_Some then_do_ret)

lemma main_Inl: "parse_args parser argv = Inl e \<Longrightarrow> main lib argv = raise (SystemExit (status e))"
  by (simp add: main_def)

lemma po_plain: "\<not> prefix ''-'' a \<Longrightarrow> parse_optional P a = Inr None"
  by (cases a) (auto simp: parse_optional_def)

lemma plain_not_dashes: "\<not> prefix ''-'' a \<Longrightarrow> a \<noteq> ''--''"
  by auto

lemma po_s2dfile:
  "parse_optional parser ''--s2dfile'' = Inr (Some (Some s2dfile_action, ''--s2dfile'', False, None))"
  by (simp add: parse_optional_def osa_parser)

lemma po_parfile:
  "parse_optional parser ''--parfile'' = Inr (Some (Some parfile_action, ''--parfile'', False, None))"
  by (simp add: parse_optional_def osa_parser)

lemma po_save_plot:
  "parse_optional parser ''--save_plot'' =
     Inr (Some (Some save_plot_action, ''--save_plot'', False, None))"
  by (simp add: parse_optional_def osa_parser)

lemma partition_eq_append:
  "CHR ''='' \<notin> set k \<Longrightarrow> partition_eq (k @ CHR ''='' # v) = (k, True, v)"
  unfolding partition_eq_def by (induction k) auto

lemma po_s2dfile_eq:
  "parse_optional parser (''--s2dfile='' @ a) =
     Inr (Some (Some s2dfile_action, ''--s2dfile'', True, Some a))"
proof -
  have p: "partition_eq (''--s2dfile='' @ a) = (''--s2dfile'', True, a)"
    using partition_eq_append[of "''--s2dfile''" a] by simp
  show ?thesis
    unfolding parse_optional_def p by (simp add: osa_parser)
qed

lemma po_parfile_eq:
  "parse_optional parser (''--parfile='' @ b) =
     Inr (Some (Some parfile_action, ''--parfile'', True, Some b))"
proof -
  have p: "partition_eq (''--parfile='' @ b) = (''--parfile'', True, b)"
    using partition_eq_append[of "''--parfile''" b] by simp
  show ?thesis
    unfolding parse_optional_def p by (simp add: osa_parser)
qed

lemma kinds:
  "kind s2dfile_action = Store" "kind parfile_action = Store" "kind save_plot_action = StoreTrue"
  "dest s2dfile_action = Some ''s2dfile''" "dest parfile_action = Some ''parfile''"
  "dest save_plot_action = Some ''save_plot''"
  by (simp_all add: s2dfile_action_def parfile_action_def save_plot_action_def)

lemma required_parser:
  "filter Q parser = filter Q [help_action, s2dfile_action, parfile_action, save_plot_action]"
  "\<not> required help_action" "required s2dfile_action" "\<not> required parfile_action"
  "\<not> required save_plot_action"
  by (simp_all add: parser_actions)
     (simp_all add: help_action_def s2dfile_action_def parfile_action_def save_plot_action_def)

lemma action_name_s2dfile: "action_name s2dfile_action = ''--s2dfile''"
  by (simp add: action_name_def s2dfile_action_def)

lemmas po_eq_forms = po_s2dfile_eq[unfolded append.simps] po_parfile_eq[unfolded append.simps]

lemmas parse_simps = parse_args_def parse_known_args_def po_s2dfile po_parfile po_save_plot
  po_eq_forms po_plain plain_not_dashes match_argument_def take_action_def kinds
  required_parser action_name_s2dfile actions_distinct actions_distinct[symmetric] Let_def

lemma parse_eq_form:
  "parse_args parser [''--s2dfile='' @ a, ''--parfile='' @ b, ''--save_plot''] =
     Inr ((defaults parser)(''s2dfile'' \<mapsto> Str a, ''parfile'' \<mapsto> Str b, ''save_plot'' \<mapsto> Bool True))"
  by (simp add: parse_simps)

lemma parse_eq_s2dfile:
  "parse_args parser [''--s2dfile='' @ a] = Inr ((defaults parser)(''s2dfile'' \<mapsto> Str a))"
  by (simp add: parse_simps)

lemma parse_separate:
  assumes "\<not> prefix ''-'' a" and "\<not> prefix ''-'' b"
  shows "parse_args parser [''--s2dfile'', a, ''--parfile'', b, ''--save_plot''] =
     Inr ((defaults parser)(''s2dfile'' \<mapsto> Str a, ''parfile'' \<mapsto> Str b, ''save_plot'' \<mapsto> Bool True))"
  using assms by (simp add: parse_simps)

lemma parse_s2dfile:
  assumes "\<not> prefix ''-'' a"
  shows "parse_args parser [''--s2dfile'', a] = Inr ((defaults parser)(''s2dfile'' \<mapsto> Str a))"
  using assms by (simp add: parse_simps)

lemma parse_nothing: "parse_args parser [] = Inl (RequiredArguments [''--s2dfile''])"
  by (simp add: parse_simps)

lemma parse_eq_two:
  "parse_args parser [''--s2dfile='' @ a, ''--parfile='' @ b] =
     Inr ((defaults parser)(''s2dfile'' \<mapsto> Str a, ''parfile'' \<mapsto> Str b))"
  by (simp add: parse_simps)

lemma main_forwards:
  fixes lib :: "('w, 'e, 'c) library"
  assumes Inr: "parse_args parser argv = Inr args"
  shows "dom args = {''s2dfile'', ''parfile'', ''save_plot''} \<and>
              (\<exists>x y z. args ''s2dfile'' = Some (Str x) \<and> args ''parfile'' = Some (Str y) \<and>
                 args ''save_plot'' = Some (Bool z) \<and>
                 main lib argv = extract_spectrum lib x y z)"
proof -
    note ns = parse_args_namespace[OF Inr]
    from ns have d: "dom args = {''s2dfile'', ''parfile'', ''save_plot''}" by (rule conjunct1)
    from ns[THEN conjunct2] obtain x y z where
      v: "args ''s2dfile'' = Some (Str x)" "args ''parfile'' = Some (Str y)"
        "args ''save_plot'' = Some (Bool z)"
      by blast
    from main_Inr[OF Inr v] have m: "main lib argv = extract_spectrum lib x y z" .
    have "\<exists>x y z. args ''s2dfile'' = Some (Str x) \<and>
        args ''parfile'' = Some (Str y) \<and> args ''save_plot'' = Some (Bool z) \<and>
        main lib argv = extract_spectrum lib x y z"
      by (intro exI conjI) (rule v m)+
    with d show ?thesis by (rule conjI)
qed

subsection \<open>What the driver passes on\<close>

text \<open>
  Claim C7.  The driver reads the three attributes \<^verbatim>\<open>s2dfile\<close>, \<^verbatim>\<open>parfile\<close> and
  \<^verbatim>\<open>save_plot\<close> of the namespace and nothing else of the command line.  Whenever the parser
  returns a namespace, it holds exactly these three attributes, two strings and a boolean,
  and the driver is the call of \<open>extract_spectrum\<close> on these three values; whenever the
  parser exits, so does the driver, and \<open>extract_spectrum\<close> is not called.  The values are
  those of the command line, unchanged: any two strings \<open>a\<close> and \<open>b\<close> given as
  \<^verbatim>\<open>--s2dfile=a\<close> and \<^verbatim>\<open>--parfile=b\<close> are the first two arguments of the call and the
  third tells whether \<^verbatim>\<open>--save_plot\<close> is there, and the same holds for values given as
  separate argument strings, which cannot start with \<^verbatim>\<open>-\<close>.
\<close>

theorem driver_forwards:
  fixes lib :: "('w, 'e, 'c) library"
  shows "(case parse_args parser argv of
            Inl e \<Rightarrow> main lib argv = raise (SystemExit (status e))
          | Inr args \<Rightarrow>
              dom args = {''s2dfile'', ''parfile'', ''save_plot''} \<and>
              (\<exists>x y z. args ''s2dfile'' = Some (Str x) \<and> args ''parfile'' = Some (Str y) \<and>
                 args ''save_plot'' = Some (Bool z) \<and>
                 main lib argv = extract_spectrum lib x y z)) \<and>
         main lib [''--s2dfile='' @ a, ''--parfile='' @ b, ''--save_plot''] =
           extract_spectrum lib a b True \<and>
         main lib [''--s2dfile='' @ a, ''--parfile='' @ b] = extract_spectrum lib a b False \<and>
         (\<not> prefix ''-'' a \<and> \<not> prefix ''-'' b \<longrightarrow>
            main lib [''--s2dfile'', a, ''--parfile'', b, ''--save_plot''] =
              extract_spectrum lib a b True)"
proof -
  have 1: "case parse_args parser argv of
            Inl e \<Rightarrow> main lib argv = raise (SystemExit (status e))
          | Inr args \<Rightarrow>
              dom args = {''s2dfile'', ''parfile'', ''save_plot''} \<and>
              (\<exists>x y z. args ''s2dfile'' = Some (Str x) \<and> args ''parfile'' = Some (Str y) \<and>
                 args ''save_plot'' = Some (Bool z) \<and>
                 main lib argv = extract_spectrum lib x y z)"
  proof (cases "parse_args parser argv")
    case (Inl e)
    from main_Inl[OF Inl] show ?thesis unfolding Inl sum.case .
  next
    case (Inr args)
    from main_forwards[OF Inr] show ?thesis unfolding Inr sum.case .
  qed
  have 2: "main lib [''--s2dfile='' @ a, ''--parfile='' @ b, ''--save_plot''] =
           extract_spectrum lib a b True"
    by (rule main_Inr[OF parse_eq_form]) simp_all
  have 3: "main lib [''--s2dfile='' @ a, ''--parfile='' @ b] = extract_spectrum lib a b False"
    by (rule main_Inr[OF parse_eq_two]) (simp_all add: defaults_parser)
  have 4: "\<not> prefix ''-'' a \<and> \<not> prefix ''-'' b \<longrightarrow>
     main lib [''--s2dfile'', a, ''--parfile'', b, ''--save_plot''] =
              extract_spectrum lib a b True"
  proof (intro impI, elim conjE)
    assume "\<not> prefix ''-'' a" "\<not> prefix ''-'' b"
    from parse_separate[OF this] show "main lib [''--s2dfile'', a, ''--parfile'', b, ''--save_plot''] =
              extract_spectrum lib a b True"
      by (rule main_Inr) simp_all
  qed
  show ?thesis by (rule conjI[OF 1 conjI[OF 2 conjI[OF 3 4]]])
qed

theorem driver_forwards_witness:
  "\<not> prefix ''-'' ''in_s2d.fits'' \<and> \<not> prefix ''-'' ''par.json'' \<and>
   main (demo_lib ''obs_extract1dstep.fits'')
       [''--s2dfile'', ''in_s2d.fits'', ''--parfile'', ''par.json'', ''--save_plot''] =
     extract_spectrum (demo_lib ''obs_extract1dstep.fits'') ''in_s2d.fits'' ''par.json'' True \<and>
   parse_args parser [] = Inl (RequiredArguments [''--s2dfile'']) \<and>
   main (demo_lib ''obs_extract1dstep.fits'') [] = raise (SystemExit 2)"
  using driver_forwards[where lib = "demo_lib ''obs_extract1dstep.fits''"
      and argv = "[]" and a = "''in_s2d.fits''" and b = "''par.json''"]
  by (simp add: parse_nothing)

subsection \<open>Required and optional arguments\<close>

text \<open>
  Claim C8.  An argument string selects \<^verbatim>\<open>--parfile\<close> only if it starts with \<^verbatim>\<open>--p\<close>,
  \<^verbatim>\<open>--save_plot\<close> only if it starts with \<^verbatim>\<open>--sa\<close> and \<^verbatim>\<open>--s2dfile\<close> only if it starts
  with \<^verbatim>\<open>--s2\<close> (the parser accepts abbreviations).  On a command line that the parser
  accepts and on which no argument string starts with \<^verbatim>\<open>--p\<close>, the parameter file passed
  to \<open>extract_spectrum\<close> is \<^verbatim>\<open>miri_lrs_demo_extract1d.json\<close>; on one on which none starts
  with \<^verbatim>\<open>--sa\<close> the plot flag passed is false.  A command line on which none starts with
  \<^verbatim>\<open>--s2\<close> is refused: the driver exits and does not call \<open>extract_spectrum\<close>; with no
  argument at all the status is 2.  And \<^verbatim>\<open>--s2dfile\<close> alone is enough.
\<close>

theorem only_s2dfile_required:
  fixes lib :: "('w, 'e, 'c) library"
  shows "(parse_args parser argv = Inr args \<and> list_all (\<lambda>s. \<not> prefix ''--p'' s) argv \<longrightarrow>
            args ''parfile'' = Some (Str ''miri_lrs_demo_extract1d.json'') \<and>
            (\<exists>x z. main lib argv = extract_spectrum lib x ''miri_lrs_demo_extract1d.json'' z)) \<and>
         (parse_args parser argv = Inr args \<and> list_all (\<lambda>s. \<not> prefix ''--sa'' s) argv \<longrightarrow>
            args ''save_plot'' = Some (Bool False) \<and>
            (\<exists>x y. main lib argv = extract_spectrum lib x y False)) \<and>
         (list_all (\<lambda>s. \<not> prefix ''--s2'' s) argv \<longrightarrow>
            (\<exists>e. parse_args parser argv = Inl e \<and> main lib argv = raise (SystemExit (status e)))) \<and>
         main lib [] = raise (SystemExit 2) \<and>
         main lib [''--s2dfile='' @ a] =
           extract_spectrum lib a ''miri_lrs_demo_extract1d.json'' False \<and>
         (\<not> prefix ''-'' a \<longrightarrow>
            main lib [''--s2dfile'', a] =
              extract_spectrum lib a ''miri_lrs_demo_extract1d.json'' False)"
proof -
  have 1: "args ''parfile'' = Some (Str ''miri_lrs_demo_extract1d.json'') \<and>
            (\<exists>x z. main lib argv = extract_spectrum lib x ''miri_lrs_demo_extract1d.json'' z)"
    if p: "parse_args parser argv = Inr args" and no: "list_all (\<lambda>s. \<not> prefix ''--p'' s) argv"
  proof -
    from main_forwards[OF p, THEN conjunct2] obtain x y z where
      v: "args ''parfile'' = Some (Str y)" and m: "main lib argv = extract_spectrum lib x y z"
      by blast
    from parfile_default[OF p no] v have "y = ''miri_lrs_demo_extract1d.json''" by simp
    with m have "\<exists>x z. main lib argv = extract_spectrum lib x ''miri_lrs_demo_extract1d.json'' z"
      by blast
    with parfile_default[OF p no] show ?thesis by (rule conjI)
  qed
  have 2: "args ''save_plot'' = Some (Bool False) \<and>
            (\<exists>x y. main lib argv = extract_spectrum lib x y False)"
    if p: "parse_args parser argv = Inr args" and no: "list_all (\<lambda>s. \<not> prefix ''--sa'' s) argv"
  proof -
    from main_forwards[OF p, THEN conjunct2] obtain x y z where
      v: "args ''save_plot'' = Some (Bool z)" and m: "main lib argv = extract_spectrum lib x y z"
      by blast
    from save_plot_default[OF p no] v have "z = False" by simp
    with m have "\<exists>x y. main lib argv = extract_spectrum lib x y False"
      by blast
    with save_plot_default[OF p no] show ?thesis by (rule conjI)
  qed
  have 3: "\<exists>e. parse_args parser argv = Inl e \<and> main lib argv = raise (SystemExit (status e))"
    if no: "list_all (\<lambda>s. \<not> prefix ''--s2'' s) argv"
  proof (cases "parse_args parser argv")
    case (Inl e)
    with main_Inl[OF Inl] show ?thesis by blast
  next
    case (Inr ns)
    with s2dfile_required[OF no] show ?thesis by blast
  qed
  have 4: "main lib [] = raise (SystemExit 2)"
    using main_Inl[OF parse_nothing] by simp
  have 5: "main lib [''--s2dfile='' @ a] =
           extract_spectrum lib a ''miri_lrs_demo_extract1d.json'' False"
    by (rule main_Inr[OF parse_eq_s2dfile]) (simp_all add: defaults_parser)
  have 6: "main lib [''--s2dfile'', a] =
              extract_spectrum lib a ''miri_lrs_demo_extract1d.json'' False"
    if "\<not> prefix ''-'' a"
    by (rule main_Inr[OF parse_s2dfile[OF that]]) (simp_all add: defaults_parser)
  from 1 2 3 4 5 6 show ?thesis by blast
qed

theorem only_s2dfile_required_witness:
  "parse_args parser [''--s2dfile'', ''in_s2d.fits''] =
     Inr ((defaults parser)(''s2dfile'' \<mapsto> Str ''in_s2d.fits'')) \<and>
   list_all (\<lambda>s. \<not> prefix ''--p'' s) [''--s2dfile'', ''in_s2d.fits''] \<and>
   list_all (\<lambda>s. \<not> prefix ''--sa'' s) [''--s2dfile'', ''in_s2d.fits''] \<and>
   ((defaults parser)(''s2dfile'' \<mapsto> Str ''in_s2d.fits'')) ''parfile'' =
     Some (Str ''miri_lrs_demo_extract1d.json'') \<and>
   ((defaults parser)(''s2dfile'' \<mapsto> Str ''in_s2d.fits'')) ''save_plot'' = Some (Bool False) \<and>
   main (demo_lib ''obs_extract1dstep.fits'') [''--s2dfile'', ''in_s2d.fits''] =
     extract_spectrum (demo_lib ''obs_extract1dstep.fits'') ''in_s2d.fits''
       ''miri_lrs_demo_extract1d.json'' False \<and>
   list_all (\<lambda>s. \<not> prefix ''--s2'' s) [''--parfile'', ''par.json'', ''--save_plot''] \<and>
   parse_args parser [''--parfile'', ''par.json'', ''--save_plot''] =
     Inl (RequiredArguments [''--s2dfile'']) \<and>
   main (demo_lib ''obs_extract1dstep.fits'') [''--parfile'', ''par.json'', ''--save_plot''] =
     raise (SystemExit 2)"
proof -
  have p: "parse_args parser [''--s2dfile'', ''in_s2d.fits''] =
     Inr ((defaults parser)(''s2dfile'' \<mapsto> Str ''in_s2d.fits''))"
    by (simp add: parse_s2dfile)
  have q: "parse_args parser [''--parfile'', ''par.json'', ''--save_plot''] =
     Inl (RequiredArguments [''--s2dfile''])"
    by (simp add: parse_simps)
  have l: "list_all (\<lambda>s. \<not> prefix ''--p'' s) [''--s2dfile'', ''in_s2d.fits'']"
    "list_all (\<lambda>s. \<not> prefix ''--sa'' s) [''--s2dfile'', ''in_s2d.fits'']"
    "list_all (\<lambda>s. \<not> prefix ''--s2'' s) [''--parfile'', ''par.json'', ''--save_plot'']"
    "\<not> prefix ''-'' ''in_s2d.fits''"
    by simp_all
  note t1 = only_s2dfile_required[where lib = "demo_lib ''obs_extract1dstep.fits''"
      and argv = "[''--s2dfile'', ''in_s2d.fits'']" and a = "''in_s2d.fits''"
      and args = "(defaults parser)(''s2dfile'' \<mapsto> Str ''in_s2d.fits'')"]
  note t2 = only_s2dfile_required[where lib = "demo_lib ''obs_extract1dstep.fits''"
      and argv = "[''--parfile'', ''par.json'', ''--save_plot'']" and a = "''in_s2d.fits''"
      and args = "(defaults parser)(''s2dfile'' \<mapsto> Str ''in_s2d.fits'')"]
  from t1 p l have a: "((defaults parser)(''s2dfile'' \<mapsto> Str ''in_s2d.fits'')) ''parfile'' =
     Some (Str ''miri_lrs_demo_extract1d.json'')"
    "((defaults parser)(''s2dfile'' \<mapsto> Str ''in_s2d.fits'')) ''save_plot'' = Some (Bool False)"
    "main (demo_lib ''obs_extract1dstep.fits'') [''--s2dfile'', ''in_s2d.fits''] =
     extract_spectrum (demo_lib ''obs_extract1dstep.fits'') ''in_s2d.fits''
       ''miri_lrs_demo_extract1d.json'' False"
    by blast+
  from t2 l(3) q have b: "main (demo_lib ''obs_extract1dstep.fits'')
      [''--parfile'', ''par.json'', ''--save_plot''] = raise (SystemExit 2)"
    by auto
  from p l a q b show ?thesis by blast
qed

end
